theory Spec2Isabelle
  imports Main
begin

section \<open>Incident question handler: the model\<close>

text \<open>
  The program is one Python module, \<^verbatim>\<open>lambda_function.py\<close>. Its functions are embedded
  below under their own names. The text of JSON values, of messages and of the prompt is a
  \<^typ>\<open>string\<close>; a character stands for the code point of the same number, so this text
  has code points below 256. The question that the Limit Extractor searches is a list of
  code points without that bound. Python integers are unbounded and are values of type
  \<^typ>\<open>int\<close>; the conversion of text to an integer has the limit of the interpreter.
\<close>

subsection \<open>Values, exceptions and the standard library\<close>

text \<open>
  The values that \<^verbatim>\<open>json.loads\<close> returns and \<^verbatim>\<open>json.dumps\<close> accepts. A dict is an
  association list in insertion order. A float is held as the text that
  \<^verbatim>\<open>json.dumps\<close> writes for it; the only float of the program is the literal
  \<^verbatim>\<open>0.7\<close> of the model payload.
\<close>

datatype json =
    JNull
  | JBool bool
  | JInt int
  | JFloat string
  | JStr string
  | JArr "json list"
  | JObj "(string \<times> json) list"

text \<open>An exception carries the text that \<^verbatim>\<open>str(e)\<close> returns for it.\<close>

datatype exn =
    KeyError string
  | TypeError string
  | AttributeError string
  | IndexError string
  | ValueError string
  | ClientError string

fun str_exn :: "exn \<Rightarrow> string" where
  "str_exn (KeyError m) = m"
| "str_exn (TypeError m) = m"
| "str_exn (AttributeError m) = m"
| "str_exn (IndexError m) = m"
| "str_exn (ValueError m) = m"
| "str_exn (ClientError m) = m"

definition nl :: char where
  "nl = CHR 0x0A"

definition sq :: char where
  "sq = CHR 0x27"

definition dq :: char where
  "dq = CHR 0x22"

definition backslash :: char where
  "backslash = CHR 0x5C"

fun type_name :: "json \<Rightarrow> string" where
  "type_name JNull = ''NoneType''"
| "type_name (JBool b) = ''bool''"
| "type_name (JInt i) = ''int''"
| "type_name (JFloat t) = ''float''"
| "type_name (JStr s) = ''str''"
| "type_name (JArr xs) = ''list''"
| "type_name (JObj kvs) = ''dict''"

text \<open>Python truth value of a value, as tested by \<^verbatim>\<open>not x\<close>.\<close>

fun truthy :: "json \<Rightarrow> bool" where
  "truthy JNull = False"
| "truthy (JBool b) = b"
| "truthy (JInt i) = (i \<noteq> 0)"
| "truthy (JFloat t) = (t \<noteq> ''0.0'' \<and> t \<noteq> ''-0.0'')"
| "truthy (JStr s) = (s \<noteq> [])"
| "truthy (JArr xs) = (xs \<noteq> [])"
| "truthy (JObj kvs) = (kvs \<noteq> [])"

text \<open>\<^verbatim>\<open>d.get(k, default)\<close>: only a dict has the method.\<close>

definition py_get :: "json \<Rightarrow> string \<Rightarrow> json \<Rightarrow> exn + json" where
  "py_get d k dflt =
     (case d of
        JObj kvs \<Rightarrow> Inr (case map_of kvs k of Some v \<Rightarrow> v | None \<Rightarrow> dflt)
      | _ \<Rightarrow> Inl (AttributeError
                 ([sq] @ type_name d @ [sq] @ '' object has no attribute '' @ [sq] @ ''get'' @ [sq])))"

text \<open>\<^verbatim>\<open>x[0]\<close>. The keys of a parsed JSON object are strings, so a dict has no key 0.\<close>

definition py_index0 :: "json \<Rightarrow> exn + json" where
  "py_index0 x =
     (case x of
        JArr xs \<Rightarrow> (case xs of [] \<Rightarrow> Inl (IndexError ''list index out of range'') | y # _ \<Rightarrow> Inr y)
      | JStr s \<Rightarrow> (case s of [] \<Rightarrow> Inl (IndexError ''string index out of range'') | c # _ \<Rightarrow> Inr (JStr [c]))
      | JObj kvs \<Rightarrow> Inl (KeyError ''0'')
      | _ \<Rightarrow> Inl (TypeError ([sq] @ type_name x @ [sq] @ '' object is not subscriptable'')))"

subsubsection \<open>Decimal text of integers\<close>

definition digit_char :: "nat \<Rightarrow> char" where
  "digit_char d = ''0123456789'' ! d"

function show_nat :: "nat \<Rightarrow> string" where
  "show_nat n = (if n < 10 then [digit_char n] else show_nat (n div 10) @ [digit_char (n mod 10)])"
  by pat_completeness auto
termination
  by (relation "measure id") auto

definition show_int :: "int \<Rightarrow> string" where
  "show_int i = (if i < 0 then ''-'' @ show_nat (nat (- i)) else show_nat (nat i))"

subsubsection \<open>\<^verbatim>\<open>json.dumps\<close>\<close>

text \<open>
  String encoding with \<^verbatim>\<open>ensure_ascii\<close>, the default: the quote, the backslash and
  the control characters with a short form are escaped by it, every other character
  outside the range from space to tilde is written as \<^verbatim>\<open>\u00XX\<close> with lower-case
  hexadecimal digits.
\<close>

definition hex_char :: "nat \<Rightarrow> char" where
  "hex_char d = ''0123456789abcdef'' ! d"

definition escape_char :: "char \<Rightarrow> string" where
  "escape_char c =
     (let n = (of_char c :: nat) in
      if c = dq then [backslash, dq]
      else if c = backslash then [backslash, backslash]
      else if n = 0x0A then [backslash, CHR ''n'']
      else if n = 0x0D then [backslash, CHR ''r'']
      else if n = 0x09 then [backslash, CHR ''t'']
      else if n = 0x08 then [backslash, CHR ''b'']
      else if n = 0x0C then [backslash, CHR ''f'']
      else if 0x20 \<le> n \<and> n \<le> 0x7E then [c]
      else [backslash, CHR ''u'', CHR ''0'', CHR ''0'', hex_char (n div 16), hex_char (n mod 16)])"

definition encode_string :: "string \<Rightarrow> string" where
  "encode_string s = [dq] @ concat (map escape_char s) @ [dq]"

fun join :: "string \<Rightarrow> string list \<Rightarrow> string" where
  "join sep [] = []"
| "join sep [x] = x"
| "join sep (x # y # ys) = x @ sep @ join sep (y # ys)"

text \<open>\<^verbatim>\<open>json.dumps(obj)\<close> with the default separators \<^verbatim>\<open>", "\<close> and \<^verbatim>\<open>": "\<close>.\<close>

fun json_dumps :: "json \<Rightarrow> string" where
  "json_dumps JNull = ''null''"
| "json_dumps (JBool b) = (if b then ''true'' else ''false'')"
| "json_dumps (JInt i) = show_int i"
| "json_dumps (JFloat t) = t"
| "json_dumps (JStr s) = encode_string s"
| "json_dumps (JArr xs) = ''['' @ join '', '' (map json_dumps xs) @ '']''"
| "json_dumps (JObj kvs) =
     ''{'' @ join '', '' (map (\<lambda>kv. encode_string (fst kv) @ '': '' @ json_dumps (snd kv)) kvs) @ ''}''"

text \<open>
  \<^verbatim>\<open>json.dumps(obj, indent=w)\<close>: the second argument is the current nesting level.
  An empty list or dict is written without a line break; otherwise every item is on
  a line of its own, indented by \<open>w\<close> spaces per level, items are separated by a comma
  and a key from its value by \<^verbatim>\<open>": "\<close>.
\<close>

definition newline_indent :: "nat \<Rightarrow> nat \<Rightarrow> string" where
  "newline_indent w level = nl # replicate (w * level) (CHR '' '')"

fun json_dumps_indent :: "nat \<Rightarrow> nat \<Rightarrow> json \<Rightarrow> string" where
  "json_dumps_indent w level (JArr xs) =
     (if xs = [] then ''[]''
      else ''['' @ newline_indent w (Suc level)
           @ join ('','' @ newline_indent w (Suc level)) (map (json_dumps_indent w (Suc level)) xs)
           @ newline_indent w level @ '']'')"
| "json_dumps_indent w level (JObj kvs) =
     (if kvs = [] then ''{}''
      else ''{'' @ newline_indent w (Suc level)
           @ join ('','' @ newline_indent w (Suc level))
               (map (\<lambda>kv. encode_string (fst kv) @ '': '' @ json_dumps_indent w (Suc level) (snd kv)) kvs)
           @ newline_indent w level @ ''}'')"
| "json_dumps_indent w level v = json_dumps v"

subsection \<open>The Limit Extractor\<close>

text \<open>
  The question is a Python \<^verbatim>\<open>str\<close>. For the Limit Extractor it is the list of its code
  points, so that every character that \<^verbatim>\<open>\d\<close> and \<^verbatim>\<open>re.IGNORECASE\<close> can match is a
  possible input.
\<close>

definition codepoints :: "string \<Rightarrow> nat list" where
  "codepoints s = map of_char s"

text \<open>
  \<^verbatim>\<open>\d\<close> matches the decimal digits of the Unicode database of the interpreter, and
  \<^verbatim>\<open>int\<close> reads them. Below 128 these are \<^verbatim>\<open>0\<close> to \<^verbatim>\<open>9\<close>. From 128 on the database is
  a parameter: a table that gives the digit value of a code point, and \<open>None\<close> for a
  code point that is not a decimal digit.
\<close>

type_synonym decimal_table = "nat \<Rightarrow> nat option"

definition decimal_value :: "decimal_table \<Rightarrow> nat \<Rightarrow> nat option" where
  "decimal_value tbl c =
     (if 0x30 \<le> c \<and> c \<le> 0x39 then Some (c - 0x30)
      else if c < 0x80 then None
      else tbl c)"

definition is_digit :: "decimal_table \<Rightarrow> nat \<Rightarrow> bool" where
  "is_digit tbl c \<longleftrightarrow> decimal_value tbl c \<noteq> None"

definition digit_value :: "decimal_table \<Rightarrow> nat \<Rightarrow> nat" where
  "digit_value tbl c = (case decimal_value tbl c of Some d \<Rightarrow> d | None \<Rightarrow> 0)"

text \<open>The number written by a run of decimal digits; leading zeros are accepted.\<close>

definition int_of_digits :: "decimal_table \<Rightarrow> nat list \<Rightarrow> int" where
  "int_of_digits tbl ds = int (foldl (\<lambda>n c. 10 * n + digit_value tbl c) 0 ds)"

text \<open>
  \<^verbatim>\<open>int(s)\<close> on a run of decimal digits, the only argument it gets here. CPython 3.11
  and later refuse a run of more than 4300 digits, leading zeros counted, with
  \<^verbatim>\<open>ValueError\<close>.
\<close>

definition int_max_str_digits :: nat where
  "int_max_str_digits = 4300"

definition int_limit_message :: "nat \<Rightarrow> string" where
  "int_limit_message n =
     ''Exceeds the limit ('' @ show_nat int_max_str_digits
     @ '' digits) for integer string conversion: value has '' @ show_nat n
     @ '' digits; use sys.set_int_max_str_digits() to increase the limit''"

definition py_int :: "decimal_table \<Rightarrow> nat list \<Rightarrow> exn + int" where
  "py_int tbl ds =
     (if int_max_str_digits < length ds then Inl (ValueError (int_limit_message (length ds)))
      else Inr (int_of_digits tbl ds))"

text \<open>
  \<^verbatim>\<open>re.search(r"last (\d+) incidents", user_question, re.IGNORECASE)\<close>. Under
  \<^verbatim>\<open>re.IGNORECASE\<close> a character of the subject matches an ASCII character of the pattern
  when the two have the same key: capitals have the key of their small letter, U+0130 and
  U+0131 the key of \<^verbatim>\<open>i\<close>, U+017F the key of \<^verbatim>\<open>s\<close>, U+212A the key of \<^verbatim>\<open>k\<close>, and every
  other character is its own key.
\<close>

definition ignorecase_key :: "nat \<Rightarrow> nat" where
  "ignorecase_key c =
     (if 0x41 \<le> c \<and> c \<le> 0x5A then c + 0x20
      else if c = 0x130 \<or> c = 0x131 then 0x69
      else if c = 0x17F then 0x73
      else if c = 0x212A then 0x6B
      else c)"

text \<open>
  Matching a literal piece of the pattern at the start of the subject; the result is
  the rest of the subject behind the match.
\<close>

fun match_literal :: "nat list \<Rightarrow> nat list \<Rightarrow> nat list option" where
  "match_literal [] s = Some s"
| "match_literal (p # ps) [] = None"
| "match_literal (p # ps) (c # cs) =
     (if ignorecase_key c = ignorecase_key p then match_literal ps cs else None)"

text \<open>
  The greedy group \<^verbatim>\<open>(\d+)\<close> followed by the rest of the pattern: the group first
  takes \<open>k\<close> digits and gives one back at a time, down to one digit, until
  \<^verbatim>\<open>" incidents"\<close> matches behind it.
\<close>

fun match_digits :: "nat \<Rightarrow> nat list \<Rightarrow> nat list option" where
  "match_digits 0 r = None"
| "match_digits (Suc k) r =
     (case match_literal (codepoints '' incidents'') (drop (Suc k) r) of
        Some rest \<Rightarrow> Some (take (Suc k) r)
      | None \<Rightarrow> match_digits k r)"

text \<open>The whole pattern anchored at the start of the subject; the result is group 1.\<close>

definition match_here :: "decimal_table \<Rightarrow> nat list \<Rightarrow> nat list option" where
  "match_here tbl s =
     (case match_literal (codepoints ''last '') s of
        None \<Rightarrow> None
      | Some r \<Rightarrow> match_digits (length (takeWhile (is_digit tbl) r)) r)"

text \<open>The search tries every start position from left to right.\<close>

fun re_search :: "decimal_table \<Rightarrow> nat list \<Rightarrow> nat list option" where
  "re_search tbl [] = match_here tbl []"
| "re_search tbl (c # cs) =
     (case match_here tbl (c # cs) of
        Some g \<Rightarrow> Some g
      | None \<Rightarrow> re_search tbl cs)"

definition determine_incident_limit :: "decimal_table \<Rightarrow> nat list \<Rightarrow> exn + int" where
  "determine_incident_limit tbl user_question =
     (case re_search tbl user_question of
        Some g \<Rightarrow> py_int tbl g
      | None \<Rightarrow> Inr 5)"

text \<open>
  What the specification calls an occurrence of "last N incidents": at offset \<open>i\<close> of
  the question stand \<^verbatim>\<open>last\<close> and a space, then the digits \<open>ds\<close>, at least one, then a
  space and \<^verbatim>\<open>incidents\<close>, the letters in any case, that is, compared by their keys.
\<close>

definition occurs_at :: "decimal_table \<Rightarrow> nat list \<Rightarrow> nat \<Rightarrow> nat list \<Rightarrow> bool" where
  "occurs_at tbl q i ds \<longleftrightarrow>
     ds \<noteq> [] \<and> list_all (is_digit tbl) ds
     \<and> map ignorecase_key (take 5 (drop i q)) = codepoints ''last ''
     \<and> take (length ds) (drop (i + 5) q) = ds
     \<and> map ignorecase_key (take 10 (drop (i + 5 + length ds) q)) = codepoints '' incidents''"

subsection \<open>The Record Store Gateway\<close>

text \<open>
  An attribute value of the store is a dict with one key, the type descriptor. A
  record maps attribute names to attribute values.
\<close>

datatype attribute_value =
    Attr_S string
  | Attr_N string
  | Attr_B string
  | Attr_SS "string list"
  | Attr_NS "string list"
  | Attr_BS "string list"
  | Attr_M "(string \<times> attribute_value) list"
  | Attr_L "attribute_value list"
  | Attr_NULL bool
  | Attr_BOOL bool

type_synonym incident = "string \<rightharpoonup> attribute_value"

text \<open>
  The two service clients, \<^verbatim>\<open>json.loads\<close> and the Unicode database of the interpreter
  are outside the module. A call of
  \<^verbatim>\<open>scan\<close> returns the \<^verbatim>\<open>Items\<close> entry of the response, if it has one, or raises;
  a call of \<^verbatim>\<open>invoke_model\<close> returns the text read from the body of the response,
  or raises.
\<close>

record env =
  decimals :: decimal_table
  loads :: "string \<Rightarrow> exn + json"
  scan :: "string \<Rightarrow> int \<Rightarrow> exn + incident list option"
  invoke_model :: "string \<Rightarrow> string \<Rightarrow> exn + string"

text \<open>The calls made to the two services are recorded in the order they are made.\<close>

datatype call =
    Scan string int
  | InvokeModel string string

text \<open>
  The result of \<^verbatim>\<open>get_all_incidents\<close> is the list of records or the dict
  \<^verbatim>\<open>{"error": msg}\<close>, held as \<open>Failure msg\<close>.
\<close>

datatype fetch_result =
    Items "incident list"
  | Failure string

definition get_all_incidents :: "env \<Rightarrow> string \<Rightarrow> int \<Rightarrow> call list \<times> fetch_result" where
  "get_all_incidents e table_name limit =
     ([Scan table_name limit],
      case scan e table_name limit of
        Inr response \<Rightarrow> Items (case response of Some items \<Rightarrow> items | None \<Rightarrow> [])
      | Inl ex \<Rightarrow> Failure (''Error fetching incidents: '' @ str_exn ex))"

subsection \<open>The Prompt Formatter and the Prompt Composer\<close>

text \<open>\<^verbatim>\<open>incident.get(k, {}).get("S", "N/A")\<close>\<close>

definition get_S :: "incident \<Rightarrow> string \<Rightarrow> string" where
  "get_S incident k =
     (case incident k of
        None \<Rightarrow> ''N/A''
      | Some a \<Rightarrow> (case a of Attr_S s \<Rightarrow> s | _ \<Rightarrow> ''N/A''))"

definition format_incident :: "incident \<Rightarrow> json" where
  "format_incident incident = JObj
     [(''Incident ID'', JStr (get_S incident ''id'')),
      (''Title'', JStr (get_S incident ''title'')),
      (''Status'', JStr (get_S incident ''status'')),
      (''Priority'', JStr (get_S incident ''priority'')),
      (''Urgency'', JStr (get_S incident ''urgency'')),
      (''Category'', JStr (get_S incident ''category'')),
      (''Affected Service'', JStr (get_S incident ''affectedService'')),
      (''Root Cause'', JStr (get_S incident ''rootCauseAnalysis''))]"

text \<open>The loop that appends one dict per record to \<^verbatim>\<open>formatted_incidents\<close>.\<close>

fun format_loop :: "incident list \<Rightarrow> json list \<Rightarrow> json list" where
  "format_loop [] formatted_incidents = formatted_incidents"
| "format_loop (incident # rest) formatted_incidents =
     format_loop rest (formatted_incidents @ [format_incident incident])"

definition format_incidents_for_prompt :: "incident list \<Rightarrow> string" where
  "format_incidents_for_prompt incidents = json_dumps_indent 2 0 (JArr (format_loop incidents []))"

definition generate_user_query_prompt :: "incident list \<Rightarrow> string \<Rightarrow> string" where
  "generate_user_query_prompt incidents user_question =
     ''You are an AI assistant helping with incident management. Below are the most recent incidents:''
     @ [nl, nl] @ format_incidents_for_prompt incidents
     @ [nl, nl] @ ''User Question: '' @ user_question
     @ [nl, nl] @ ''Please provide a clear, professional response.''"

text \<open>
  The specification's reading of the formatter: the eight labels in their order, each
  with the attribute it shows, and the text of one record and of the whole block.
\<close>

definition field_labels :: "(string \<times> string) list" where
  "field_labels =
     [(''Incident ID'', ''id''), (''Title'', ''title''), (''Status'', ''status''),
      (''Priority'', ''priority''), (''Urgency'', ''urgency''), (''Category'', ''category''),
      (''Affected Service'', ''affectedService''), (''Root Cause'', ''rootCauseAnalysis'')]"

definition shown_value :: "incident \<Rightarrow> string \<Rightarrow> string" where
  "shown_value incident k =
     (case incident k of Some (Attr_S s) \<Rightarrow> s | _ \<Rightarrow> ''N/A'')"

definition record_text :: "incident \<Rightarrow> string" where
  "record_text incident =
     ''{''
     @ join '','' (map (\<lambda>(label, k). [nl] @ ''    '' @ [dq] @ label @ [dq] @ '': ''
                                      @ encode_string (shown_value incident k)) field_labels)
     @ [nl] @ ''  }''"

definition block_text :: "incident list \<Rightarrow> string" where
  "block_text incidents =
     (if incidents = [] then ''[]''
      else ''['' @ join '','' (map (\<lambda>incident. [nl] @ ''  '' @ record_text incident) incidents)
           @ [nl] @ '']'')"

subsection \<open>The Prompt Formatter on a store of list objects\<close>

text \<open>
  \<open>format_incidents_for_prompt\<close> reads the list it is given, creates the list
  \<^verbatim>\<open>formatted_incidents\<close> and appends to it. To state what a call leaves behind, the same
  function is written once more with the list objects held in a store under addresses:
  the argument is the address of the list of records, the new list is put at the next
  free address, and \<^verbatim>\<open>append\<close> updates the object at the address of the new list. The
  result is \<open>None\<close> when the store does not hold a list of the expected kind at an
  address that is read.
\<close>

type_synonym addr = nat

datatype list_object =
    Record_list "incident list"
  | Dict_list "json list"

record store =
  objects :: "addr \<rightharpoonup> list_object"
  next_addr :: addr

definition new_list :: "store \<Rightarrow> addr \<times> store" where
  "new_list s =
     (next_addr s,
      s\<lparr>objects := (objects s)(next_addr s \<mapsto> Dict_list []), next_addr := Suc (next_addr s)\<rparr>)"

definition list_append :: "addr \<Rightarrow> json \<Rightarrow> store \<Rightarrow> store option" where
  "list_append a v s =
     (case objects s a of
        Some (Dict_list xs) \<Rightarrow> Some (s\<lparr>objects := (objects s)(a \<mapsto> Dict_list (xs @ [v]))\<rparr>)
      | _ \<Rightarrow> None)"

fun format_loop_store :: "incident list \<Rightarrow> addr \<Rightarrow> store \<Rightarrow> store option" where
  "format_loop_store [] formatted_incidents s = Some s"
| "format_loop_store (incident # rest) formatted_incidents s =
     (case list_append formatted_incidents (format_incident incident) s of
        None \<Rightarrow> None
      | Some s' \<Rightarrow> format_loop_store rest formatted_incidents s')"

definition format_incidents_for_prompt_store :: "addr \<Rightarrow> store \<Rightarrow> (string \<times> store) option" where
  "format_incidents_for_prompt_store incidents s =
     (case objects s incidents of
        Some (Record_list records) \<Rightarrow>
          (let (formatted_incidents, s1) = new_list s
           in case format_loop_store records formatted_incidents s1 of
                None \<Rightarrow> None
              | Some s2 \<Rightarrow>
                  (case objects s2 formatted_incidents of
                     Some (Dict_list dicts) \<Rightarrow> Some (json_dumps_indent 2 0 (JArr dicts), s2)
                   | _ \<Rightarrow> None))
      | _ \<Rightarrow> None)"

subsection \<open>The Model Gateway\<close>

definition model_id :: string where
  "model_id = ''anthropic.claude-3-5-sonnet-20240620-v1:0''"

definition payload :: "string \<Rightarrow> json" where
  "payload prompt = JObj
     [(''anthropic_version'', JStr ''bedrock-2023-05-31''),
      (''messages'', JArr
         [JObj [(''role'', JStr ''user''),
                (''content'', JArr [JObj [(''type'', JStr ''text''), (''text'', JStr prompt)]])]]),
      (''max_tokens'', JInt 500),
      (''temperature'', JFloat ''0.7'')]"

text \<open>\<^verbatim>\<open>json.loads(x)\<close>: the argument has to be text.\<close>

definition json_loads :: "env \<Rightarrow> json \<Rightarrow> exn + json" where
  "json_loads e x =
     (case x of
        JStr s \<Rightarrow> loads e s
      | _ \<Rightarrow> Inl (TypeError (''the JSON object must be str, bytes or bytearray, not '' @ type_name x)))"

text \<open>The body of the \<^verbatim>\<open>try\<close> block of \<^verbatim>\<open>invoke_bedrock\<close>.\<close>

definition invoke_bedrock_try :: "env \<Rightarrow> string \<Rightarrow> exn + json" where
  "invoke_bedrock_try e prompt =
     (case invoke_model e model_id (json_dumps (payload prompt)) of
        Inl ex \<Rightarrow> Inl ex
      | Inr raw \<Rightarrow>
          (case loads e raw of
             Inl ex \<Rightarrow> Inl ex
           | Inr response_body \<Rightarrow>
               (case py_get response_body ''content'' (JArr [JObj []]) of
                  Inl ex \<Rightarrow> Inl ex
                | Inr content \<Rightarrow>
                    (case py_index0 content of
                       Inl ex \<Rightarrow> Inl ex
                     | Inr first \<Rightarrow> py_get first ''text'' (JStr [])))))"

definition invoke_bedrock :: "env \<Rightarrow> string \<Rightarrow> call list \<times> json" where
  "invoke_bedrock e prompt =
     ([InvokeModel model_id (json_dumps (payload prompt))],
      case invoke_bedrock_try e prompt of
        Inr text \<Rightarrow> text
      | Inl ex \<Rightarrow> JObj [(''error'', JStr (''Error invoking Bedrock: '' @ str_exn ex))])"

subsection \<open>The Request Handler\<close>

record response =
  statusCode :: int
  body :: string

type_synonym event = "string \<rightharpoonup> json"

text \<open>
  The part of the \<^verbatim>\<open>try\<close> block of \<^verbatim>\<open>lambda_handler\<close> behind the check of the
  question, for a question that is text. When \<open>determine_incident_limit\<close> raises, no call
  has been made.
\<close>

definition answer :: "env \<Rightarrow> string \<Rightarrow> call list \<times> (exn + response)" where
  "answer e user_question =
     (case determine_incident_limit (decimals e) (codepoints user_question) of
        Inl ex \<Rightarrow> ([], Inl ex)
      | Inr limit \<Rightarrow>
          (let table_name = ''dev-incidents'';
               (calls1, incidents) = get_all_incidents e table_name limit
           in case incidents of
                Failure msg \<Rightarrow>
                  (calls1, Inr \<lparr>statusCode = 500, body = json_dumps (JObj [(''error'', JStr msg)])\<rparr>)
              | Items records \<Rightarrow>
                  if records = [] then
                    (calls1, Inr \<lparr>statusCode = 404,
                                  body = json_dumps (JObj [(''error'', JStr ''No incidents found'')])\<rparr>)
                  else
                    (let prompt = generate_user_query_prompt records user_question;
                         (calls2, response_text) = invoke_bedrock e prompt
                     in (calls1 @ calls2,
                         Inr \<lparr>statusCode = 200,
                              body = json_dumps (JObj [(''response'', response_text)])\<rparr>))))"

text \<open>
  The \<^verbatim>\<open>try\<close> block of \<^verbatim>\<open>lambda_handler\<close>. The event is a dict. A question that is
  true but not text makes \<^verbatim>\<open>re.search\<close> raise in \<^verbatim>\<open>determine_incident_limit\<close>
  (the wording of the message is that of CPython 3.11 and later).
\<close>

definition lambda_handler_try :: "env \<Rightarrow> event \<Rightarrow> call list \<times> (exn + response)" where
  "lambda_handler_try e event =
     (case event ''body'' of
        None \<Rightarrow> ([], Inl (KeyError ([sq] @ ''body'' @ [sq])))
      | Some raw \<Rightarrow>
          (case json_loads e raw of
             Inl ex \<Rightarrow> ([], Inl ex)
           | Inr parsed \<Rightarrow>
               (case py_get parsed ''user_question'' (JStr []) of
                  Inl ex \<Rightarrow> ([], Inl ex)
                | Inr user_question \<Rightarrow>
                    if \<not> truthy user_question then
                      ([], Inr \<lparr>statusCode = 400,
                                body = json_dumps (JObj [(''error'', JStr ''Please provide a user question'')])\<rparr>)
                    else
                      (case user_question of
                         JStr q \<Rightarrow> answer e q
                       | _ \<Rightarrow> ([], Inl (TypeError (''expected string or bytes-like object, got ''
                                                    @ [sq] @ type_name user_question @ [sq])))))))"

text \<open>The handler: whatever the \<^verbatim>\<open>try\<close> block raises becomes a response.\<close>

definition lambda_handler :: "env \<Rightarrow> event \<Rightarrow> call list \<times> (exn + response)" where
  "lambda_handler e event =
     (let (calls, outcome) = lambda_handler_try e event
      in (calls,
          case outcome of
            Inr r \<Rightarrow> Inr r
          | Inl ex \<Rightarrow> Inr \<lparr>statusCode = 500, body = json_dumps (JObj [(''error'', JStr (str_exn ex))])\<rparr>))"

subsection \<open>Texts of the specification and sample environments\<close>

text \<open>A text between double quotes, and text that \<^verbatim>\<open>json.dumps\<close> writes as it is.\<close>

definition quoted :: "string \<Rightarrow> string" where
  "quoted s = [dq] @ s @ [dq]"

definition plain_char :: "char \<Rightarrow> bool" where
  "plain_char c \<longleftrightarrow>
     0x20 \<le> (of_char c :: nat) \<and> (of_char c :: nat) \<le> 0x7E \<and> c \<noteq> dq \<and> c \<noteq> backslash"

text \<open>
  Two request bodies, a model reply, and a \<^verbatim>\<open>loads\<close> that knows these texts and
  the empty object; it is used for the examples only.
\<close>

definition sample_question_body :: string where
  "sample_question_body =
     ''{'' @ quoted ''user_question'' @ '': '' @ quoted ''show the last 2 incidents'' @ ''}''"

definition sample_empty_question_body :: string where
  "sample_empty_question_body = ''{'' @ quoted ''user_question'' @ '': '' @ quoted [] @ ''}''"

definition sample_reply :: string where
  "sample_reply =
     ''{'' @ quoted ''content'' @ '': [{'' @ quoted ''type'' @ '': '' @ quoted ''text'' @ '', ''
     @ quoted ''text'' @ '': '' @ quoted ''Two incidents are open.'' @ ''}]}''"

definition sample_loads :: "string \<Rightarrow> exn + json" where
  "sample_loads s =
     (if s = ''{}'' then Inr (JObj [])
      else if s = sample_question_body then
        Inr (JObj [(''user_question'', JStr ''show the last 2 incidents'')])
      else if s = sample_empty_question_body then
        Inr (JObj [(''user_question'', JStr [])])
      else if s = sample_reply then
        Inr (JObj [(''content'',
                    JArr [JObj [(''type'', JStr ''text''), (''text'', JStr ''Two incidents are open.'')]])])
      else Inl (ValueError ''Expecting value: line 1 column 1 (char 0)''))"

text \<open>A table that knows the Arabic-Indic digits, U+0660 to U+0669.\<close>

definition sample_decimals :: decimal_table where
  "sample_decimals c = (if 0x660 \<le> c \<and> c \<le> 0x669 then Some (c - 0x660) else None)"

definition sample_env :: "(exn + incident list option) \<Rightarrow> (exn + string) \<Rightarrow> env" where
  "sample_env scan_result model_result =
     \<lparr>decimals = sample_decimals, loads = sample_loads, scan = (\<lambda>table_name limit. scan_result),
      invoke_model = (\<lambda>model body. model_result)\<rparr>"

definition sample_records :: "incident list" where
  "sample_records =
     [[''id'' \<mapsto> Attr_S ''INC-1'', ''title'' \<mapsto> Attr_S ''Disk full'', ''priority'' \<mapsto> Attr_N ''1''],
      Map.empty]"

definition sample_event :: event where
  "sample_event = [''body'' \<mapsto> JStr sample_question_body]"

section \<open>Properties\<close>

subsection \<open>The Limit Extractor and the first occurrence\<close>

lemma ignorecase_key_space: "ignorecase_key (32) = 32"
  by (simp add: ignorecase_key_def)

lemma digit_not_space: "is_digit tbl c \<Longrightarrow> ignorecase_key c \<noteq> 32"
  by (auto simp: is_digit_def decimal_value_def ignorecase_key_def split: if_splits)

lemma match_literal_iff:
  "match_literal p s = Some r \<longleftrightarrow>
     length p \<le> length s \<and> map ignorecase_key (take (length p) s) = map ignorecase_key p \<and> r = drop (length p) s"
  by (induction p s rule: match_literal.induct) auto

lemma match_literal_digit:
  assumes "k < length (takeWhile (is_digit tbl) r)"
  shows "match_literal (codepoints '' incidents'') (drop k r) = None"
proof -
  from assms have "k < length r"
    using length_takeWhile_le [of "is_digit tbl" r] by simp
  then have d: "drop k r = r ! k # drop (Suc k) r"
    by (simp add: Cons_nth_drop_Suc)
  have "is_digit tbl (r ! k)"
    using assms nth_length_takeWhile takeWhile_nth nth_mem set_takeWhileD
    by (metis)
  then show ?thesis
    using digit_not_space [of tbl "r ! k"] by (simp add: d ignorecase_key_space codepoints_def)
qed

lemma match_digits_below:
  "k < length (takeWhile (is_digit tbl) r) \<Longrightarrow> match_digits k r = None"
  by (induction k) (simp_all add: match_literal_digit)

lemma match_digits_run:
  "match_digits (length (takeWhile (is_digit tbl) r)) r =
     (if takeWhile (is_digit tbl) r \<noteq> [] \<and> match_literal (codepoints '' incidents'') (drop (length (takeWhile (is_digit tbl) r)) r) \<noteq> None
      then Some (takeWhile (is_digit tbl) r) else None)"
proof (cases "length (takeWhile (is_digit tbl) r)")
  case 0
  then show ?thesis by simp
next
  case (Suc k)
  have t: "take (Suc k) r = takeWhile (is_digit tbl) r"
    using Suc takeWhile_eq_take [of "is_digit tbl" r] by simp
  have "match_digits k r = None"
    using Suc match_digits_below [of k tbl r] by simp
  with Suc t show ?thesis
    by (auto split: option.splits)
qed


lemma match_last:
  "match_literal (codepoints ''last '') s = Some r \<longleftrightarrow>
     5 \<le> length s \<and> map ignorecase_key (take 5 s) = (codepoints ''last '') \<and> r = drop 5 s"
  using match_literal_iff [of "(codepoints ''last '')" s r] by (simp add: codepoints_def ignorecase_key_def eval_nat_numeral)

lemma match_incidents:
  "match_literal (codepoints '' incidents'') s = Some r \<longleftrightarrow>
     10 \<le> length s \<and> map ignorecase_key (take 10 s) = (codepoints '' incidents'') \<and> r = drop 10 s"
  using match_literal_iff [of "(codepoints '' incidents'')" s r] by (simp add: codepoints_def ignorecase_key_def eval_nat_numeral)

lemma take_eq_length: "map f (take n s) = t \<Longrightarrow> length t = n \<Longrightarrow> n \<le> length s"
  by (metis length_map length_take min.cobounded1 min.commute)

lemma space_not_digit: "ignorecase_key c = 32 \<Longrightarrow> \<not> is_digit tbl c"
  using digit_not_space by blast

lemma takeWhile_run:
  assumes "list_all (is_digit tbl) ds" and "take (length ds) r = ds"
    and "map ignorecase_key (take 10 (drop (length ds) r)) = (codepoints '' incidents'')"
  shows "takeWhile (is_digit tbl) r = ds"
proof -
  have r: "r = ds @ drop (length ds) r"
    using assms(2) append_take_drop_id [of "length ds" r] by simp
  obtain c cs where c: "drop (length ds) r = c # cs"
    using assms(3) by (cases "drop (length ds) r") (auto simp add: codepoints_def)
  have "ignorecase_key c = 32"
    using assms(3) c by (simp add: codepoints_def)
  then have "\<not> is_digit tbl c"
    by (rule space_not_digit)
  moreover have "\<forall>x\<in>set ds. is_digit tbl x"
    using assms(1) by (simp add: list_all_iff)
  ultimately have "takeWhile (is_digit tbl) (ds @ c # cs) = ds"
    by (simp add: takeWhile_append2)
  with r c show ?thesis by simp
qed

lemma match_here_iff: "match_here tbl s = Some ds \<longleftrightarrow> occurs_at tbl s 0 ds"
proof
  assume m: "match_here tbl s = Some ds"
  then obtain r where r: "match_literal (codepoints ''last '') s = Some r"
    and d: "match_digits (length (takeWhile (is_digit tbl) r)) r = Some ds"
    by (auto simp: match_here_def split: option.splits)
  from r have s5: "map ignorecase_key (take 5 s) = (codepoints ''last '')" and rd: "r = drop 5 s"
    by (simp_all add: match_last)
  from d have ds: "ds = takeWhile (is_digit tbl) r" and ne: "ds \<noteq> []"
    and tl: "match_literal (codepoints '' incidents'') (drop (length ds) r) \<noteq> None"
    by (auto simp: match_digits_run split: if_splits)
  from tl obtain rest where "match_literal (codepoints '' incidents'') (drop (length ds) r) = Some rest"
    by auto
  then have t10: "map ignorecase_key (take 10 (drop (length ds) r)) = (codepoints '' incidents'')"
    by (simp add: match_incidents)
  have "list_all (is_digit tbl) ds"
    using ds by (auto simp: list_all_iff dest: set_takeWhileD)
  moreover have "take (length ds) r = ds"
    using ds takeWhile_eq_take [of "is_digit tbl" r] by simp
  ultimately show "occurs_at tbl s 0 ds"
    using ne s5 rd t10 by (simp add: occurs_at_def add.commute)
next
  assume o: "occurs_at tbl s 0 ds"
  then have ne: "ds \<noteq> []" and dg: "list_all (is_digit tbl) ds"
    and s5: "map ignorecase_key (take 5 s) = (codepoints ''last '')"
    and tk: "take (length ds) (drop 5 s) = ds"
    and t10: "map ignorecase_key (take 10 (drop (length ds) (drop 5 s))) = (codepoints '' incidents'')"
    by (simp_all add: occurs_at_def add.commute)
  have l5: "5 \<le> length s"
    using s5 by (rule take_eq_length) (simp add: codepoints_def)
  have m1: "match_literal (codepoints ''last '') s = Some (drop 5 s)"
    using s5 l5 by (simp add: match_last)
  have run: "takeWhile (is_digit tbl) (drop 5 s) = ds"
    using dg tk t10 by (rule takeWhile_run)
  have l10: "10 \<le> length (drop (length ds) (drop 5 s))"
    using t10 by (rule take_eq_length) (simp add: codepoints_def)
  have m2: "match_literal (codepoints '' incidents'') (drop (length ds) (drop 5 s))
            = Some (drop 10 (drop (length ds) (drop 5 s)))"
    using t10 l10 by (simp add: match_incidents)
  have c: "takeWhile (is_digit tbl) (drop 5 s) \<noteq> [] \<and>
           match_literal (codepoints '' incidents'')
             (drop (length (takeWhile (is_digit tbl) (drop 5 s))) (drop 5 s)) \<noteq> None"
    unfolding run using ne m2 by (simp del: drop_drop)
  have "match_here tbl s = match_digits (length (takeWhile (is_digit tbl) (drop 5 s))) (drop 5 s)"
    by (simp only: match_here_def m1 option.case)
  also have "\<dots> = Some (takeWhile (is_digit tbl) (drop 5 s))"
    using c by (simp only: match_digits_run simp_thms if_True)
  finally show "match_here tbl s = Some ds"
    using run by simp
qed

lemma occurs_at_Cons: "occurs_at tbl (c # cs) (Suc i) ds = occurs_at tbl cs i ds"
  by (simp only: occurs_at_def add_Suc drop_Suc_Cons)

lemma occurs_at_Nil: "\<not> occurs_at tbl [] i ds"
  by (simp add: occurs_at_def codepoints_def)

lemma re_search_None: "re_search tbl q = None \<longleftrightarrow> (\<forall>i ds. \<not> occurs_at tbl q i ds)"
proof (induction q)
  case Nil
  show ?case by (simp add: occurs_at_Nil match_here_def codepoints_def)
next
  case (Cons c cs)
  have "(\<forall>i ds. \<not> occurs_at tbl (c # cs) i ds) \<longleftrightarrow>
        (\<forall>ds. \<not> occurs_at tbl (c # cs) 0 ds) \<and> (\<forall>i ds. \<not> occurs_at tbl cs i ds)"
    by (metis occurs_at_Cons not0_implies_Suc)
  moreover have "match_here tbl (c # cs) = None \<longleftrightarrow> (\<forall>ds. \<not> occurs_at tbl (c # cs) 0 ds)"
    using match_here_iff [of tbl "c # cs"] by (metis not_Some_eq)
  ultimately show ?case
    using Cons.IH by (simp split: option.splits) (metis option.distinct(1))
qed

lemma re_search_Some:
  "re_search tbl q = Some ds \<longleftrightarrow>
     (\<exists>i. occurs_at tbl q i ds \<and> (\<forall>j<i. \<forall>ds'. \<not> occurs_at tbl q j ds'))"
proof (induction q)
  case Nil
  show ?case by (simp add: occurs_at_Nil match_here_def codepoints_def)
next
  case (Cons c cs)
  show ?case
  proof (cases "match_here tbl (c # cs)")
    case (Some g)
    then have o: "occurs_at tbl (c # cs) 0 g" by (simp add: match_here_iff)
    have "re_search tbl (c # cs) = Some g" using Some by simp
    moreover have "(\<exists>i. occurs_at tbl (c # cs) i ds \<and> (\<forall>j<i. \<forall>ds'. \<not> occurs_at tbl (c # cs) j ds')) \<longleftrightarrow> ds = g"
    proof
      assume "\<exists>i. occurs_at tbl (c # cs) i ds \<and> (\<forall>j<i. \<forall>ds'. \<not> occurs_at tbl (c # cs) j ds')"
      then obtain i where i: "occurs_at tbl (c # cs) i ds" "\<forall>j<i. \<forall>ds'. \<not> occurs_at tbl (c # cs) j ds'"
        by blast
      with o have "i = 0" by (cases i) auto
      with i have "match_here tbl (c # cs) = Some ds" by (simp add: match_here_iff)
      with Some show "ds = g" by simp
    next
      assume "ds = g"
      with o show "\<exists>i. occurs_at tbl (c # cs) i ds \<and> (\<forall>j<i. \<forall>ds'. \<not> occurs_at tbl (c # cs) j ds')"
        by (intro exI [of _ 0]) simp
    qed
    ultimately show ?thesis by auto
  next
    case None
    then have no0: "\<And>ds'. \<not> occurs_at tbl (c # cs) 0 ds'"
      using match_here_iff [of tbl "c # cs"] by simp
    have "re_search tbl (c # cs) = re_search tbl cs" using None by simp
    moreover have "(\<exists>i. occurs_at tbl (c # cs) i ds \<and> (\<forall>j<i. \<forall>ds'. \<not> occurs_at tbl (c # cs) j ds')) \<longleftrightarrow>
                   (\<exists>i. occurs_at tbl cs i ds \<and> (\<forall>j<i. \<forall>ds'. \<not> occurs_at tbl cs j ds'))"
    proof
      assume "\<exists>i. occurs_at tbl (c # cs) i ds \<and> (\<forall>j<i. \<forall>ds'. \<not> occurs_at tbl (c # cs) j ds')"
      then obtain i where i: "occurs_at tbl (c # cs) i ds" "\<forall>j<i. \<forall>ds'. \<not> occurs_at tbl (c # cs) j ds'"
        by blast
      from i(1) no0 obtain i' where i': "i = Suc i'" by (cases i) auto
      have "occurs_at tbl cs i' ds" using i(1) i' by (simp add: occurs_at_Cons)
      moreover have "\<forall>j<i'. \<forall>ds'. \<not> occurs_at tbl cs j ds'"
      proof (intro allI impI)
        fix j ds' assume "j < i'"
        then have "Suc j < i" using i' by simp
        with i(2) have "\<not> occurs_at tbl (c # cs) (Suc j) ds'" by blast
        then show "\<not> occurs_at tbl cs j ds'" by (simp add: occurs_at_Cons)
      qed
      ultimately show "\<exists>i. occurs_at tbl cs i ds \<and> (\<forall>j<i. \<forall>ds'. \<not> occurs_at tbl cs j ds')" by blast
    next
      assume "\<exists>i. occurs_at tbl cs i ds \<and> (\<forall>j<i. \<forall>ds'. \<not> occurs_at tbl cs j ds')"
      then obtain i where i: "occurs_at tbl cs i ds" "\<forall>j<i. \<forall>ds'. \<not> occurs_at tbl cs j ds'"
        by blast
      have "occurs_at tbl (c # cs) (Suc i) ds" using i(1) by (simp add: occurs_at_Cons)
      moreover have "\<forall>j<Suc i. \<forall>ds'. \<not> occurs_at tbl (c # cs) j ds'"
      proof (intro allI impI)
        fix j ds' assume j: "j < Suc i"
        show "\<not> occurs_at tbl (c # cs) j ds'"
        proof (cases j)
          case 0
          then show ?thesis using no0 by simp
        next
          case (Suc j')
          with j i(2) show ?thesis by (simp add: occurs_at_Cons)
        qed
      qed
      ultimately show "\<exists>i. occurs_at tbl (c # cs) i ds \<and> (\<forall>j<i. \<forall>ds'. \<not> occurs_at tbl (c # cs) j ds')"
        by blast
    qed
    ultimately show ?thesis using Cons.IH by simp
  qed
qed


lemma len5: "map f w = (codepoints ''last '') \<Longrightarrow> length w = 5"
  by (drule arg_cong [where f = length]) (simp add: codepoints_def)

lemma len10: "map f w = (codepoints '' incidents'') \<Longrightarrow> length w = 10"
  by (drule arg_cong [where f = length]) (simp add: codepoints_def)

lemma occurs_at_append:
  assumes "map ignorecase_key w1 = (codepoints ''last '')" and "ds \<noteq> []" and "list_all (is_digit tbl) ds"
    and "map ignorecase_key w2 = (codepoints '' incidents'')"
  shows "occurs_at tbl (pre @ w1 @ ds @ w2 @ post) (length pre) ds"
proof -
  have l1: "length w1 = 5" using assms(1) by (rule len5)
  have l2: "length w2 = 10" using assms(4) by (rule len10)
  have a: "drop (length pre) (pre @ w1 @ ds @ w2 @ post) = w1 @ ds @ w2 @ post"
    by simp
  have b: "drop (length pre + 5) (pre @ w1 @ ds @ w2 @ post) = ds @ w2 @ post"
    using l1 by simp
  have c: "drop (length pre + 5 + length ds) (pre @ w1 @ ds @ w2 @ post) = w2 @ post"
    using l1 by simp
  have t1: "take 5 (w1 @ ds @ w2 @ post) = w1" using l1 by simp
  have t2: "take (length ds) (ds @ w2 @ post) = ds" by simp
  have t3: "take 10 (w2 @ post) = w2" using l2 by simp
  show ?thesis
    unfolding occurs_at_def a b c t1 t2 t3 using assms by blast
qed

lemma lower_digit_eq: "ignorecase_key c = d \<Longrightarrow> is_digit tbl d \<Longrightarrow> c = d"
  by (auto simp: ignorecase_key_def is_digit_def decimal_value_def split: if_splits)

lemma lower_digits_id: "list_all (is_digit tbl) (map ignorecase_key d) \<Longrightarrow> map ignorecase_key d = d"
proof (induction d)
  case Nil
  show ?case by simp
next
  case (Cons c d)
  then have "is_digit tbl (ignorecase_key c)" and "map ignorecase_key d = d" by simp_all
  moreover from this(1) have "ignorecase_key c = c" by (rule lower_digit_eq [OF refl, symmetric])
  ultimately show ?case by simp
qed

lemma occurs_at_phrase:
  assumes "map ignorecase_key w = (codepoints ''last '') @ ds @ (codepoints '' incidents'')" and "list_all (is_digit tbl) ds"
    and "ds \<noteq> []"
  shows "occurs_at tbl (pre @ w @ post) (length pre) ds"
proof -
  define w1 where "w1 = take 5 w"
  define d where "d = take (length ds) (drop 5 w)"
  define w2 where "w2 = drop (length ds) (drop 5 w)"
  have w: "w = w1 @ d @ w2"
    by (simp only: w1_def d_def w2_def append_take_drop_id)
  have "map ignorecase_key w1 = take 5 (map ignorecase_key w)"
    by (simp only: w1_def take_map)
  also have "\<dots> = take 5 ((codepoints ''last '') @ ds @ (codepoints '' incidents''))"
    by (simp only: assms(1))
  also have "\<dots> = (codepoints ''last '')"
    by (simp add: codepoints_def)
  finally have l1: "map ignorecase_key w1 = (codepoints ''last '')" .
  have "map ignorecase_key d = take (length ds) (drop 5 (map ignorecase_key w))"
    by (simp only: d_def take_map drop_map)
  also have "\<dots> = take (length ds) (drop 5 ((codepoints ''last '') @ ds @ (codepoints '' incidents'')))"
    by (simp only: assms(1))
  also have "\<dots> = ds"
    by (simp add: codepoints_def)
  finally have l2: "map ignorecase_key d = ds" .
  have "map ignorecase_key w2 = drop (length ds) (drop 5 (map ignorecase_key w))"
    by (simp only: w2_def drop_map)
  also have "\<dots> = drop (length ds) (drop 5 ((codepoints ''last '') @ ds @ (codepoints '' incidents'')))"
    by (simp only: assms(1))
  also have "\<dots> = (codepoints '' incidents'')"
    by (simp add: codepoints_def del: drop_drop)
  finally have l3: "map ignorecase_key w2 = (codepoints '' incidents'')" .
  have "list_all (is_digit tbl) (map ignorecase_key d)"
    by (simp only: l2 assms(2))
  then have "map ignorecase_key d = d"
    by (rule lower_digits_id)
  then have dd: "d = ds"
    by (simp only: l2)
  have "occurs_at tbl (pre @ w1 @ ds @ w2 @ post) (length pre) ds"
    using l1 assms(3,2) l3 by (rule occurs_at_append)
  moreover have "pre @ w @ post = pre @ w1 @ ds @ w2 @ post"
    by (simp only: w dd append_assoc)
  ultimately show ?thesis
    by (simp only:)
qed

lemma limit_of_first:
  assumes "occurs_at tbl q i ds" and "\<forall>j<i. \<forall>ds'. \<not> occurs_at tbl q j ds'"
  shows "determine_incident_limit tbl q = py_int tbl ds"
proof -
  have "re_search tbl q = Some ds"
    using assms re_search_Some [of tbl q ds] by blast
  then show ?thesis by (simp add: determine_incident_limit_def)
qed

lemma limit_of_phrase:
  assumes "map ignorecase_key w = (codepoints ''last '') @ ds @ (codepoints '' incidents'')"
    and "list_all (is_digit tbl) ds" and "ds \<noteq> []"
    and "\<forall>j<length pre. \<forall>ds'. \<not> occurs_at tbl (pre @ w @ post) j ds'"
  shows "determine_incident_limit tbl (pre @ w @ post) = py_int tbl ds"
proof -
  have "occurs_at tbl (pre @ w @ post) (length pre) ds"
    using assms(1,2,3) by (rule occurs_at_phrase)
  then show ?thesis
    using assms(4) by (rule limit_of_first)
qed

lemma py_int_short: "length ds \<le> 4300 \<Longrightarrow> py_int tbl ds = Inr (int_of_digits tbl ds)"
  by (simp add: py_int_def int_max_str_digits_def)

lemma py_int_long:
  "4300 < length ds \<Longrightarrow> py_int tbl ds = Inl (ValueError (int_limit_message (length ds)))"
  by (simp add: py_int_def int_max_str_digits_def)

text \<open>
  Claim C1, amended. The question is given by its code points; letters are compared as
  \<^verbatim>\<open>re.IGNORECASE\<close> compares them and the digits are those that \<^verbatim>\<open>\d\<close> matches. When
  the first occurrence of "last N incidents" has at most 4300 digits,
  \<open>determine_incident_limit\<close> returns the number they write; when it has more,
  \<^verbatim>\<open>int\<close> raises \<^verbatim>\<open>ValueError\<close>; when there is no occurrence the result is 5. A question
  in which "last 12 incidents", in any case, is the first occurrence gives 12, and one in
  which "last 0 incidents" is the first occurrence gives 0.
\<close>

theorem determine_incident_limit_first_occurrence:
  "(occurs_at tbl q i ds \<and> (\<forall>j<i. \<forall>ds'. \<not> occurs_at tbl q j ds') \<and> length ds \<le> 4300
      \<longrightarrow> determine_incident_limit tbl q = Inr (int_of_digits tbl ds))
   \<and> (occurs_at tbl q i ds \<and> (\<forall>j<i. \<forall>ds'. \<not> occurs_at tbl q j ds') \<and> 4300 < length ds
      \<longrightarrow> determine_incident_limit tbl q = Inl (ValueError (int_limit_message (length ds))))
   \<and> ((\<forall>i ds. \<not> occurs_at tbl q i ds) \<longrightarrow> determine_incident_limit tbl q = Inr 5)
   \<and> (map ignorecase_key w12 = codepoints ''last 12 incidents''
        \<and> (\<forall>j<length pre. \<forall>ds'. \<not> occurs_at tbl (pre @ w12 @ post) j ds')
      \<longrightarrow> determine_incident_limit tbl (pre @ w12 @ post) = Inr 12)
   \<and> (map ignorecase_key w0 = codepoints ''last 0 incidents''
        \<and> (\<forall>j<length pre. \<forall>ds'. \<not> occurs_at tbl (pre @ w0 @ post) j ds')
      \<longrightarrow> determine_incident_limit tbl (pre @ w0 @ post) = Inr 0)"
proof (intro conjI impI)
  assume a: "occurs_at tbl q i ds \<and> (\<forall>j<i. \<forall>ds'. \<not> occurs_at tbl q j ds') \<and> length ds \<le> 4300"
  from a have 1: "occurs_at tbl q i ds" by (rule conjunct1)
  from a have 2: "\<forall>j<i. \<forall>ds'. \<not> occurs_at tbl q j ds'" by (rule conjunct2 [THEN conjunct1])
  from a have 3: "length ds \<le> 4300" by (rule conjunct2 [THEN conjunct2])
  have "determine_incident_limit tbl q = py_int tbl ds"
    using 1 2 by (rule limit_of_first)
  then show "determine_incident_limit tbl q = Inr (int_of_digits tbl ds)"
    by (simp only: py_int_short [OF 3])
next
  assume a: "occurs_at tbl q i ds \<and> (\<forall>j<i. \<forall>ds'. \<not> occurs_at tbl q j ds') \<and> 4300 < length ds"
  from a have 1: "occurs_at tbl q i ds" by (rule conjunct1)
  from a have 2: "\<forall>j<i. \<forall>ds'. \<not> occurs_at tbl q j ds'" by (rule conjunct2 [THEN conjunct1])
  from a have 3: "4300 < length ds" by (rule conjunct2 [THEN conjunct2])
  have "determine_incident_limit tbl q = py_int tbl ds"
    using 1 2 by (rule limit_of_first)
  then show "determine_incident_limit tbl q = Inl (ValueError (int_limit_message (length ds)))"
    by (simp only: py_int_long [OF 3])
next
  assume "\<forall>i ds. \<not> occurs_at tbl q i ds"
  then have "re_search tbl q = None" by (simp add: re_search_None)
  then show "determine_incident_limit tbl q = Inr 5" by (simp add: determine_incident_limit_def)
next
  assume a: "map ignorecase_key w12 = codepoints ''last 12 incidents''
             \<and> (\<forall>j<length pre. \<forall>ds'. \<not> occurs_at tbl (pre @ w12 @ post) j ds')"
  from a have "map ignorecase_key w12 = codepoints ''last 12 incidents''" by (rule conjunct1)
  then have 1: "map ignorecase_key w12
                = (codepoints ''last '') @ (codepoints ''12'') @ (codepoints '' incidents'')"
    by (simp add: codepoints_def)
  from a have 2: "\<forall>j<length pre. \<forall>ds'. \<not> occurs_at tbl (pre @ w12 @ post) j ds'" by (rule conjunct2)
  have 3: "list_all (is_digit tbl) (codepoints ''12'')"
    by (simp add: is_digit_def decimal_value_def codepoints_def)
  have 4: "codepoints ''12'' \<noteq> []" by (simp add: codepoints_def)
  have "determine_incident_limit tbl (pre @ w12 @ post) = py_int tbl (codepoints ''12'')"
    using 1 3 4 2 by (rule limit_of_phrase)
  also have "py_int tbl (codepoints ''12'') = Inr 12"
    by (simp add: py_int_def int_max_str_digits_def int_of_digits_def digit_value_def
        decimal_value_def codepoints_def)
  finally show "determine_incident_limit tbl (pre @ w12 @ post) = Inr 12" .
next
  assume a: "map ignorecase_key w0 = codepoints ''last 0 incidents''
             \<and> (\<forall>j<length pre. \<forall>ds'. \<not> occurs_at tbl (pre @ w0 @ post) j ds')"
  from a have "map ignorecase_key w0 = codepoints ''last 0 incidents''" by (rule conjunct1)
  then have 1: "map ignorecase_key w0
                = (codepoints ''last '') @ (codepoints ''0'') @ (codepoints '' incidents'')"
    by (simp add: codepoints_def)
  from a have 2: "\<forall>j<length pre. \<forall>ds'. \<not> occurs_at tbl (pre @ w0 @ post) j ds'" by (rule conjunct2)
  have 3: "list_all (is_digit tbl) (codepoints ''0'')"
    by (simp add: is_digit_def decimal_value_def codepoints_def)
  have 4: "codepoints ''0'' \<noteq> []" by (simp add: codepoints_def)
  have "determine_incident_limit tbl (pre @ w0 @ post) = py_int tbl (codepoints ''0'')"
    using 1 3 4 2 by (rule limit_of_phrase)
  also have "py_int tbl (codepoints ''0'') = Inr 0"
    by (simp add: py_int_def int_max_str_digits_def int_of_digits_def digit_value_def
        decimal_value_def codepoints_def)
  finally show "determine_incident_limit tbl (pre @ w0 @ post) = Inr 0" .
qed

lemma below_4: "(j::nat) < 4 \<longleftrightarrow> j = 0 \<or> j = 1 \<or> j = 2 \<or> j = 3"
  by arith

lemma run_occurs:
  assumes "ds \<noteq> []" and "list_all (is_digit tbl) ds"
  shows "occurs_at tbl ((codepoints ''last '') @ ds @ (codepoints '' incidents'')) 0 ds"
proof -
  have k1: "map ignorecase_key (codepoints ''last '') = codepoints ''last ''"
    by (simp add: codepoints_def ignorecase_key_def)
  have k2: "map ignorecase_key (codepoints '' incidents'') = codepoints '' incidents''"
    by (simp add: codepoints_def ignorecase_key_def)
  have "occurs_at tbl ([] @ (codepoints ''last '') @ ds @ (codepoints '' incidents'') @ []) (length ([] :: nat list)) ds"
    using k1 assms k2 by (rule occurs_at_append)
  then show ?thesis
    by simp
qed

lemma run_limit:
  assumes "ds \<noteq> []" and "list_all (is_digit tbl) ds"
  shows "determine_incident_limit tbl ((codepoints ''last '') @ ds @ (codepoints '' incidents''))
         = py_int tbl ds"
  using run_occurs [OF assms] by (rule limit_of_first) simp

lemma zeros_value: "foldl (\<lambda>n c. 10 * n + digit_value tbl c) 0 (replicate k 48) = 0"
  by (induction k) (simp_all add: digit_value_def decimal_value_def replicate_app_Cons_same)

lemma limit_message_4301:
  "int_limit_message 4301 =
     ''Exceeds the limit (4300 digits) for integer string conversion: value has 4301 digits; use sys.set_int_max_str_digits() to increase the limit''"
  by (simp add: int_limit_message_def int_max_str_digits_def digit_char_def)

theorem determine_incident_limit_long_run_counterexample:
  "occurs_at sample_decimals
     (codepoints (''last '' @ replicate 4300 (CHR ''0'') @ ''7 incidents'')) 0
     (codepoints (replicate 4300 (CHR ''0'') @ ''7''))
   \<and> int_of_digits sample_decimals (codepoints (replicate 4300 (CHR ''0'') @ ''7'')) = 7
   \<and> determine_incident_limit sample_decimals
       (codepoints (''last '' @ replicate 4300 (CHR ''0'') @ ''7 incidents''))
     = Inl (ValueError
         ''Exceeds the limit (4300 digits) for integer string conversion: value has 4301 digits; use sys.set_int_max_str_digits() to increase the limit'')"
proof -
  let ?ds = "replicate 4300 48 @ [55 :: nat]"
  have d: "codepoints (replicate 4300 (CHR ''0'') @ ''7'') = ?ds"
    by (simp add: codepoints_def)
  have q: "codepoints (''last '' @ replicate 4300 (CHR ''0'') @ ''7 incidents'')
           = (codepoints ''last '') @ ?ds @ (codepoints '' incidents'')"
    by (simp add: codepoints_def)
  have ne: "?ds \<noteq> []" by simp
  have dg: "list_all (is_digit sample_decimals) ?ds"
    by (simp add: list_all_iff is_digit_def decimal_value_def)
  have o: "occurs_at sample_decimals ((codepoints ''last '') @ ?ds @ (codepoints '' incidents'')) 0 ?ds"
    using ne dg by (rule run_occurs)
  have "foldl (\<lambda>n c. 10 * n + digit_value sample_decimals c) 0 ?ds
        = 10 * foldl (\<lambda>n c. 10 * n + digit_value sample_decimals c) 0 (replicate 4300 48)
          + digit_value sample_decimals 55"
    by (simp only: foldl_append foldl.simps)
  also have "\<dots> = 7"
    by (simp only: zeros_value) (simp add: digit_value_def decimal_value_def)
  finally have v: "int_of_digits sample_decimals ?ds = 7"
    by (simp add: int_of_digits_def)
  have l: "length ?ds = 4301" by simp
  have "determine_incident_limit sample_decimals ((codepoints ''last '') @ ?ds @ (codepoints '' incidents''))
        = py_int sample_decimals ?ds"
    using ne dg by (rule run_limit)
  also have "\<dots> = Inl (ValueError (int_limit_message (length ?ds)))"
    by (rule py_int_long) simp
  finally have r: "determine_incident_limit sample_decimals
        ((codepoints ''last '') @ ?ds @ (codepoints '' incidents''))
        = Inl (ValueError (int_limit_message 4301))"
    by (simp only: l)
  from o v r show ?thesis
    by (simp only: d q limit_message_4301)
qed


theorem determine_incident_limit_first_occurrence_witness:
  "determine_incident_limit sample_decimals
     (codepoints ''the LAST 3 Incidents, not the last 12 incidents'') = Inr 3
   \<and> determine_incident_limit sample_decimals
       [0x6C, 0x61, 0x17F, 0x74, 0x20, 0x661, 0x662, 0x20,
        0x130, 0x6E, 0x63, 0x131, 0x64, 0x65, 0x6E, 0x74, 0x73] = Inr 12
   \<and> determine_incident_limit sample_decimals
       ((codepoints ''last '') @ replicate 4301 0x39 @ (codepoints '' incidents''))
     = Inl (ValueError (int_limit_message 4301))
   \<and> determine_incident_limit sample_decimals (codepoints ''open?'') = Inr 5
   \<and> determine_incident_limit sample_decimals (codepoints ''Last 12 INCIDENTS'') = Inr 12
   \<and> determine_incident_limit sample_decimals (codepoints ''any LAST 0 incidents?'') = Inr 0"
proof -
  note T = determine_incident_limit_first_occurrence
  let ?t = sample_decimals
  let ?q = "codepoints ''the LAST 3 Incidents, not the last 12 incidents''"
  have h1: "occurs_at ?t ?q 4 (codepoints ''3'')"
    by (simp add: occurs_at_def is_digit_def decimal_value_def ignorecase_key_def codepoints_def)
  have h2: "\<forall>j<4. \<forall>ds'. \<not> occurs_at ?t ?q j ds'"
    by (simp add: below_4 occurs_at_def ignorecase_key_def codepoints_def)
  have h3: "length (codepoints ''3'') \<le> 4300"
    by (simp add: codepoints_def)
  have "determine_incident_limit ?t ?q = Inr (int_of_digits ?t (codepoints ''3''))"
    by (rule T [where tbl = ?t and q = ?q and i = 4 and ds = "codepoints ''3''",
          THEN conjunct1, THEN mp, OF conjI [OF h1 conjI [OF h2 h3]]])
  then have r1: "determine_incident_limit ?t ?q = Inr 3"
    by (simp add: int_of_digits_def digit_value_def decimal_value_def codepoints_def)
  let ?u = "[0x6C, 0x61, 0x17F, 0x74, 0x20, 0x661, 0x662, 0x20,
        0x130, 0x6E, 0x63, 0x131, 0x64, 0x65, 0x6E, 0x74, 0x73] :: nat list"
  have u1: "occurs_at ?t ?u 0 [0x661, 0x662]"
    by (simp add: occurs_at_def is_digit_def decimal_value_def sample_decimals_def
        ignorecase_key_def codepoints_def)
  have u2: "\<forall>j<0. \<forall>ds'. \<not> occurs_at ?t ?u j ds'"
    by simp
  have u3: "length [0x661, 0x662 :: nat] \<le> 4300"
    by simp
  have "determine_incident_limit ?t ?u = Inr (int_of_digits ?t [0x661, 0x662])"
    by (rule T [where tbl = ?t and q = ?u and i = 0 and ds = "[0x661, 0x662]",
          THEN conjunct1, THEN mp, OF conjI [OF u1 conjI [OF u2 u3]]])
  then have r2: "determine_incident_limit ?t ?u = Inr 12"
    by (simp add: int_of_digits_def digit_value_def decimal_value_def sample_decimals_def)
  let ?ds = "replicate 4301 0x39 :: nat list"
  let ?l = "(codepoints ''last '') @ ?ds @ (codepoints '' incidents'')"
  have l1: "occurs_at ?t ?l 0 ?ds"
    by (rule run_occurs) (simp_all add: list_all_iff is_digit_def decimal_value_def)
  have l2: "\<forall>j<0. \<forall>ds'. \<not> occurs_at ?t ?l j ds'"
    by simp
  have l3: "4300 < length ?ds"
    by simp
  have "determine_incident_limit ?t ?l = Inl (ValueError (int_limit_message (length ?ds)))"
    by (rule T [where tbl = ?t and q = ?l and i = 0 and ds = ?ds,
          THEN conjunct2, THEN conjunct1, THEN mp, OF conjI [OF l1 conjI [OF l2 l3]]])
  then have r3: "determine_incident_limit ?t ?l = Inl (ValueError (int_limit_message 4301))"
    by simp
  have n1: "\<forall>i ds. \<not> occurs_at ?t (codepoints ''open?'') i ds"
  proof (intro allI)
    fix i :: nat and ds
    consider "i = 0" | "i = 1" | "i = 2" | "i = 3" | "i = 4" | "5 \<le> i" by linarith
    then show "\<not> occurs_at ?t (codepoints ''open?'') i ds"
      by cases (simp_all add: occurs_at_def ignorecase_key_def codepoints_def)
  qed
  have r4: "determine_incident_limit ?t (codepoints ''open?'') = Inr 5"
    by (rule T [where tbl = ?t and q = "codepoints ''open?''",
          THEN conjunct2, THEN conjunct2, THEN conjunct1, THEN mp, OF n1])
  have h4: "map ignorecase_key (codepoints ''Last 12 INCIDENTS'') = codepoints ''last 12 incidents''"
    by (simp add: ignorecase_key_def codepoints_def)
  have h5: "\<forall>j<length ([] :: nat list).
              \<forall>ds'. \<not> occurs_at ?t ([] @ codepoints ''Last 12 INCIDENTS'' @ []) j ds'"
    by simp
  have "determine_incident_limit ?t ([] @ codepoints ''Last 12 INCIDENTS'' @ []) = Inr 12"
    by (rule T [where tbl = ?t and ?w12.0 = "codepoints ''Last 12 INCIDENTS''"
            and pre = "[]" and post = "[]",
          THEN conjunct2, THEN conjunct2, THEN conjunct2, THEN conjunct1, THEN mp,
          OF conjI [OF h4 h5]])
  then have r5: "determine_incident_limit ?t (codepoints ''Last 12 INCIDENTS'') = Inr 12"
    by simp
  have h6: "map ignorecase_key (codepoints ''LAST 0 incidents'') = codepoints ''last 0 incidents''"
    by (simp add: ignorecase_key_def codepoints_def)
  have l: "length (codepoints ''any '') = 4"
    by (simp add: codepoints_def)
  have c: "codepoints ''any '' @ codepoints ''LAST 0 incidents'' @ codepoints ''?''
           = codepoints ''any LAST 0 incidents?''"
    by (simp add: codepoints_def)
  have "\<forall>j<4. \<forall>ds'. \<not> occurs_at ?t (codepoints ''any LAST 0 incidents?'') j ds'"
    by (simp add: below_4 occurs_at_def ignorecase_key_def codepoints_def)
  then have h7: "\<forall>j<length (codepoints ''any '').
      \<forall>ds'. \<not> occurs_at ?t (codepoints ''any '' @ codepoints ''LAST 0 incidents'' @ codepoints ''?'') j ds'"
    by (simp only: l c)
  have "determine_incident_limit ?t
          (codepoints ''any '' @ codepoints ''LAST 0 incidents'' @ codepoints ''?'') = Inr 0"
    by (rule T [where tbl = ?t and ?w0.0 = "codepoints ''LAST 0 incidents''"
            and pre = "codepoints ''any ''" and post = "codepoints ''?''",
          THEN conjunct2, THEN conjunct2, THEN conjunct2, THEN conjunct2, THEN mp,
          OF conjI [OF h6 h7]])
  then have r6: "determine_incident_limit ?t (codepoints ''any LAST 0 incidents?'') = Inr 0"
    by (simp only: c)
  from r1 r2 r3 r4 r5 r6 show ?thesis by (intro conjI)
qed

subsection \<open>The responses of the Request Handler\<close>

lemma dumps_error: "json_dumps (JObj [(''error'', JStr m)]) = ''{'' @ quoted ''error'' @ '': '' @ encode_string m @ ''}''"
  by (simp add: quoted_def encode_string_def escape_char_def dq_def backslash_def)

lemma dumps_response: "json_dumps (JObj [(''response'', r)]) = ''{'' @ quoted ''response'' @ '': '' @ json_dumps r @ ''}''"
  by (simp add: quoted_def encode_string_def escape_char_def dq_def backslash_def)

lemma escape_plain: "plain_char c \<Longrightarrow> escape_char c = [c]"
  by (auto simp: plain_char_def escape_char_def Let_def)

lemma encode_plain: "list_all plain_char s \<Longrightarrow> encode_string s = quoted s"
proof -
  assume "list_all plain_char s"
  then have "concat (map escape_char s) = s"
    by (induction s) (simp_all add: escape_plain)
  then show ?thesis by (simp add: encode_string_def quoted_def)
qed

lemma handler_falsy:
  assumes "event ''body'' = Some raw" and "json_loads e raw = Inr parsed"
    and "py_get parsed ''user_question'' (JStr []) = Inr uq" and "\<not> truthy uq"
  shows "lambda_handler e event =
     ([], Inr \<lparr>statusCode = 400,
               body = json_dumps (JObj [(''error'', JStr ''Please provide a user question'')])\<rparr>)"
  using assms by (simp add: lambda_handler_def lambda_handler_try_def del: json_dumps.simps)

lemma handler_answer:
  assumes "event ''body'' = Some raw" and "json_loads e raw = Inr parsed"
    and "py_get parsed ''user_question'' (JStr []) = Inr (JStr q)" and "q \<noteq> []"
  shows "lambda_handler e event = (fst (answer e q),
     case snd (answer e q) of Inr r \<Rightarrow> Inr r
     | Inl ex \<Rightarrow> Inr \<lparr>statusCode = 500, body = json_dumps (JObj [(''error'', JStr (str_exn ex))])\<rparr>)"
  using assms by (simp add: lambda_handler_def lambda_handler_try_def split_beta del: json_dumps.simps)

lemma answer_raises:
  assumes "determine_incident_limit (decimals e) (codepoints q) = Inl ex"
  shows "answer e q = ([], Inl ex)"
  using assms by (simp add: answer_def)

lemma answer_failure:
  assumes "determine_incident_limit (decimals e) (codepoints q) = Inr limit"
    and "scan e ''dev-incidents'' limit = Inl ex"
  shows "answer e q = ([Scan ''dev-incidents'' limit],
     Inr \<lparr>statusCode = 500,
          body = json_dumps (JObj [(''error'', JStr (''Error fetching incidents: '' @ str_exn ex))])\<rparr>)"
  using assms by (simp add: answer_def get_all_incidents_def del: json_dumps.simps)

lemma answer_empty:
  assumes "determine_incident_limit (decimals e) (codepoints q) = Inr limit"
    and "scan e ''dev-incidents'' limit = Inr response"
    and "response = None \<or> response = Some []"
  shows "answer e q = ([Scan ''dev-incidents'' limit],
     Inr \<lparr>statusCode = 404,
          body = json_dumps (JObj [(''error'', JStr ''No incidents found'')])\<rparr>)"
  using assms by (auto simp add: answer_def get_all_incidents_def simp del: json_dumps.simps)

lemma answer_records:
  assumes "determine_incident_limit (decimals e) (codepoints q) = Inr limit"
    and "scan e ''dev-incidents'' limit = Inr (Some records)"
    and "records \<noteq> []"
  shows "answer e q =
     ([Scan ''dev-incidents'' limit,
       InvokeModel model_id (json_dumps (payload (generate_user_query_prompt records q)))],
      Inr \<lparr>statusCode = 200,
           body = json_dumps (JObj [(''response'',
                    snd (invoke_bedrock e (generate_user_query_prompt records q)))])\<rparr>)"
  using assms by (simp add: answer_def get_all_incidents_def invoke_bedrock_def Let_def del: json_dumps.simps)

lemma answer_status:
  "(\<exists>ex. answer e q = ([], Inl ex))
   \<or> (\<exists>r. snd (answer e q) = Inr r \<and> statusCode r \<in> {200, 404, 500})"
  by (simp add: answer_def get_all_incidents_def invoke_bedrock_def split_beta Let_def
      split: sum.splits option.splits del: json_dumps.simps)

lemma try_cases:
  "(\<exists>ex. lambda_handler_try e event = ([], Inl ex))
   \<or> lambda_handler_try e event =
       ([], Inr \<lparr>statusCode = 400,
                 body = json_dumps (JObj [(''error'', JStr ''Please provide a user question'')])\<rparr>)
   \<or> (\<exists>q. lambda_handler_try e event = answer e q)"
  by (auto simp add: lambda_handler_try_def simp del: json_dumps.simps
      split: option.splits sum.splits json.splits)

lemma handler_status:
  "\<exists>r. snd (lambda_handler e event) = Inr r \<and> statusCode r \<in> {200, 400, 404, 500}"
proof -
  consider (raised) ex where "lambda_handler_try e event = ([], Inl ex)"
    | (no_question) "lambda_handler_try e event =
       ([], Inr \<lparr>statusCode = 400,
                 body = json_dumps (JObj [(''error'', JStr ''Please provide a user question'')])\<rparr>)"
    | (answered) q where "lambda_handler_try e event = answer e q"
    using try_cases [of e event] by (elim disjE exE)
  then show ?thesis
  proof cases
    case raised
    then show ?thesis by (simp add: lambda_handler_def del: json_dumps.simps)
  next
    case no_question
    then show ?thesis by (simp add: lambda_handler_def del: json_dumps.simps)
  next
    case answered
    consider (raised) ex where "answer e q = ([], Inl ex)"
      | (responded) r where "snd (answer e q) = Inr r" "statusCode r \<in> {200, 404, 500}"
      using answer_status [of e q] by (elim disjE exE conjE)
    then show ?thesis
    proof cases
      case raised
      then show ?thesis
        using answered by (simp add: lambda_handler_def del: json_dumps.simps)
    next
      case responded
      then show ?thesis
        using answered by (auto simp add: lambda_handler_def split_beta simp del: json_dumps.simps)
    qed
  qed
qed

lemma answer_calls:
  "fst (answer e q) = []
   \<or> (\<exists>limit. determine_incident_limit (decimals e) (codepoints q) = Inr limit
         \<and> (fst (answer e q) = [Scan ''dev-incidents'' limit]
              \<or> (\<exists>body. fst (answer e q) = [Scan ''dev-incidents'' limit, InvokeModel model_id body])))"
  by (simp add: answer_def get_all_incidents_def invoke_bedrock_def split_beta Let_def
      split: sum.splits option.splits del: json_dumps.simps)

lemma answer_has_scan:
  "determine_incident_limit (decimals e) (codepoints q) = Inr limit \<Longrightarrow>
   Scan ''dev-incidents'' limit \<in> set (fst (answer e q))"
  by (simp add: answer_def get_all_incidents_def invoke_bedrock_def split_beta Let_def
      split: fetch_result.splits del: json_dumps.simps)

lemma handler_calls: "fst (lambda_handler e event) = fst (lambda_handler_try e event)"
  by (simp add: lambda_handler_def split_beta)

lemma scan_called:
  assumes "Scan t l \<in> set (fst (lambda_handler e event))"
  shows "\<exists>q. lambda_handler_try e event = answer e q \<and> t = ''dev-incidents''
             \<and> determine_incident_limit (decimals e) (codepoints q) = Inr l"
proof -
  from assms have c: "Scan t l \<in> set (fst (lambda_handler_try e event))"
    by (simp only: handler_calls)
  consider (raised) ex where "lambda_handler_try e event = ([], Inl ex)"
    | (no_question) "lambda_handler_try e event =
       ([], Inr \<lparr>statusCode = 400,
                 body = json_dumps (JObj [(''error'', JStr ''Please provide a user question'')])\<rparr>)"
    | (answered) q where "lambda_handler_try e event = answer e q"
    using try_cases [of e event] by (elim disjE exE)
  then show ?thesis
  proof cases
    case raised
    with c show ?thesis by simp
  next
    case no_question
    with c show ?thesis by simp
  next
    case answered
    with c have "Scan t l \<in> set (fst (answer e q))" by simp
    then have "t = ''dev-incidents'' \<and> determine_incident_limit (decimals e) (codepoints q) = Inr l"
      using answer_calls [of e q] by auto
    with answered show ?thesis by (intro exI [of _ q]) simp
  qed
qed

lemma handler_of_answer:
  assumes "lambda_handler_try e event = answer e q" and "answer e q = (calls, Inr r)"
  shows "lambda_handler e event = (calls, Inr r)"
  using assms by (simp add: lambda_handler_def)

text \<open>
  Claim C5. When the handler has called the store and the call raised, the response has
  status 500, its body is the dict with the single key \<^verbatim>\<open>error\<close> whose text is
  \<^verbatim>\<open>Error fetching incidents: \<close> followed by the message of the exception, the message
  is written into the body unchanged when it consists of plain characters, and the model
  is not invoked.
\<close>

theorem fetch_failure_is_500:
  assumes "Scan t l \<in> set (fst (lambda_handler e event))" and "scan e t l = Inl ex"
  shows "lambda_handler e event =
           ([Scan t l],
            Inr \<lparr>statusCode = 500,
                 body = ''{'' @ quoted ''error'' @ '': ''
                        @ encode_string (''Error fetching incidents: '' @ str_exn ex) @ ''}''\<rparr>)
         \<and> (list_all plain_char (str_exn ex) \<longrightarrow>
              encode_string (''Error fetching incidents: '' @ str_exn ex)
              = quoted (''Error fetching incidents: '' @ str_exn ex))
         \<and> (\<forall>m b. InvokeModel m b \<notin> set (fst (lambda_handler e event)))"
proof -
  obtain q where q: "lambda_handler_try e event = answer e q" "t = ''dev-incidents''"
    "determine_incident_limit (decimals e) (codepoints q) = Inr l"
    using scan_called [OF assms(1)] by (elim exE conjE)
  have "scan e ''dev-incidents'' l = Inl ex"
    using assms(2) q(2) by simp
  note a = answer_failure [OF q(3) this]
  have h: "lambda_handler e event =
           ([Scan t l],
            Inr \<lparr>statusCode = 500,
                 body = ''{'' @ quoted ''error'' @ '': ''
                        @ encode_string (''Error fetching incidents: '' @ str_exn ex) @ ''}''\<rparr>)"
    using handler_of_answer [OF q(1) a] q(2) by (simp only: dumps_error)
  have p: "list_all plain_char (str_exn ex) \<longrightarrow>
              encode_string (''Error fetching incidents: '' @ str_exn ex)
              = quoted (''Error fetching incidents: '' @ str_exn ex)"
  proof
    assume "list_all plain_char (str_exn ex)"
    moreover have "list_all plain_char ''Error fetching incidents: ''"
      by (simp add: plain_char_def dq_def backslash_def)
    ultimately have "list_all plain_char (''Error fetching incidents: '' @ str_exn ex)"
      by (simp only: list_all_append simp_thms)
    then show "encode_string (''Error fetching incidents: '' @ str_exn ex)
              = quoted (''Error fetching incidents: '' @ str_exn ex)"
      by (rule encode_plain)
  qed
  have n: "\<forall>m b. InvokeModel m b \<notin> set (fst (lambda_handler e event))"
    by (simp add: h)
  from h p n show ?thesis by (intro conjI)
qed

lemma sample_limit:
  "determine_incident_limit (decimals (sample_env sr mr)) (codepoints ''show the last 2 incidents'')
   = Inr 2"
  by (simp add: determine_incident_limit_def match_here_def ignorecase_key_def is_digit_def
      decimal_value_def py_int_def int_max_str_digits_def int_of_digits_def digit_value_def
      codepoints_def sample_env_def)

lemma sample_parsed:
  "json_loads (sample_env sr mr) (JStr sample_question_body)
   = Inr (JObj [(''user_question'', JStr ''show the last 2 incidents'')])"
  by (simp add: json_loads_def sample_env_def sample_loads_def sample_question_body_def quoted_def)

lemma sample_handler:
  "lambda_handler (sample_env sr mr) sample_event =
     (fst (answer (sample_env sr mr) ''show the last 2 incidents''),
      case snd (answer (sample_env sr mr) ''show the last 2 incidents'') of
        Inr r \<Rightarrow> Inr r
      | Inl ex \<Rightarrow> Inr \<lparr>statusCode = 500, body = json_dumps (JObj [(''error'', JStr (str_exn ex))])\<rparr>)"
  by (rule handler_answer [where raw = "JStr sample_question_body"
        and parsed = "JObj [(''user_question'', JStr ''show the last 2 incidents'')]"])
     (simp_all add: sample_event_def sample_parsed py_get_def)

lemma sample_scan_called:
  "Scan ''dev-incidents'' 2 \<in> set (fst (lambda_handler (sample_env sr mr) sample_event))"
  using answer_has_scan [OF sample_limit, of sr mr]
  by (simp only: sample_handler fst_conv)

theorem fetch_failure_is_500_witness:
  "lambda_handler (sample_env (Inl (ClientError ''Requested resource not found'')) (Inr sample_reply))
     sample_event
   = ([Scan ''dev-incidents'' 2],
      Inr \<lparr>statusCode = 500,
           body = ''{'' @ quoted ''error'' @ '': ''
                  @ quoted ''Error fetching incidents: Requested resource not found'' @ ''}''\<rparr>)"
proof -
  let ?e = "sample_env (Inl (ClientError ''Requested resource not found'')) (Inr sample_reply)"
  have c: "Scan ''dev-incidents'' 2 \<in> set (fst (lambda_handler ?e sample_event))"
    by (rule sample_scan_called)
  have s: "scan ?e ''dev-incidents'' 2 = Inl (ClientError ''Requested resource not found'')"
    by (simp add: sample_env_def)
  have p: "list_all plain_char (str_exn (ClientError ''Requested resource not found''))"
    by (simp add: plain_char_def dq_def backslash_def)
  note t = fetch_failure_is_500 [OF c s]
  from t [THEN conjunct2, THEN conjunct1, THEN mp, OF p] t [THEN conjunct1]
  show ?thesis by simp
qed

lemma plain_provide: "list_all plain_char ''Please provide a user question''"
  by (simp add: plain_char_def dq_def backslash_def)

lemma plain_none_found: "list_all plain_char ''No incidents found''"
  by (simp add: plain_char_def dq_def backslash_def)

lemma dumps_error_plain:
  "list_all plain_char m \<Longrightarrow>
   json_dumps (JObj [(''error'', JStr m)]) = ''{'' @ quoted ''error'' @ '': '' @ quoted m @ ''}''"
  by (simp only: dumps_error encode_plain)

text \<open>
  Claim C4. When the body of the event parses to an object in which \<^verbatim>\<open>user_question\<close>
  is missing or is the empty text, the handler calls no service and returns status 400
  with the body \<^verbatim>\<open>{"error": "Please provide a user question"}\<close>.
\<close>

theorem missing_or_empty_question_is_400:
  assumes "event ''body'' = Some raw" and "json_loads e raw = Inr (JObj kvs)"
    and "map_of kvs ''user_question'' = None \<or> map_of kvs ''user_question'' = Some (JStr [])"
  shows "lambda_handler e event =
           ([], Inr \<lparr>statusCode = 400,
                     body = ''{'' @ quoted ''error'' @ '': ''
                            @ quoted ''Please provide a user question'' @ ''}''\<rparr>)"
proof -
  have g: "py_get (JObj kvs) ''user_question'' (JStr []) = Inr (JStr [])"
    using assms(3) by (auto simp add: py_get_def)
  have "lambda_handler e event =
     ([], Inr \<lparr>statusCode = 400,
               body = json_dumps (JObj [(''error'', JStr ''Please provide a user question'')])\<rparr>)"
    using assms(1,2) g by (rule handler_falsy) simp
  then show ?thesis
    by (simp only: dumps_error_plain [OF plain_provide])
qed

theorem missing_or_empty_question_is_400_witness:
  "lambda_handler (sample_env (Inr (Some sample_records)) (Inr sample_reply)) [''body'' \<mapsto> JStr ''{}'']
     = ([], Inr \<lparr>statusCode = 400,
                 body = ''{'' @ quoted ''error'' @ '': ''
                        @ quoted ''Please provide a user question'' @ ''}''\<rparr>)
   \<and> lambda_handler (sample_env (Inr (Some sample_records)) (Inr sample_reply))
         [''body'' \<mapsto> JStr sample_empty_question_body]
     = ([], Inr \<lparr>statusCode = 400,
                 body = ''{'' @ quoted ''error'' @ '': ''
                        @ quoted ''Please provide a user question'' @ ''}''\<rparr>)"
proof (intro conjI)
  let ?e = "sample_env (Inr (Some sample_records)) (Inr sample_reply)"
  show "lambda_handler ?e [''body'' \<mapsto> JStr ''{}'']
     = ([], Inr \<lparr>statusCode = 400,
                 body = ''{'' @ quoted ''error'' @ '': ''
                        @ quoted ''Please provide a user question'' @ ''}''\<rparr>)"
    by (rule missing_or_empty_question_is_400 [where raw = "JStr ''{}''" and kvs = "[]"])
       (simp_all add: json_loads_def sample_env_def sample_loads_def)
  show "lambda_handler ?e [''body'' \<mapsto> JStr sample_empty_question_body]
     = ([], Inr \<lparr>statusCode = 400,
                 body = ''{'' @ quoted ''error'' @ '': ''
                        @ quoted ''Please provide a user question'' @ ''}''\<rparr>)"
    by (rule missing_or_empty_question_is_400 [where raw = "JStr sample_empty_question_body"
          and kvs = "[(''user_question'', JStr [])]"])
       (simp_all add: json_loads_def sample_env_def sample_loads_def sample_empty_question_body_def
          sample_question_body_def quoted_def)
qed

text \<open>
  Claim C6. When the handler has called the store and the call returned no record (an
  empty \<^verbatim>\<open>Items\<close> list or a response without \<^verbatim>\<open>Items\<close>), the response has status 404
  and the body \<^verbatim>\<open>{"error": "No incidents found"}\<close>; a call that raised gives status 500
  instead.
\<close>

theorem empty_fetch_is_404:
  "Scan t l \<in> set (fst (lambda_handler e event)) \<longrightarrow>
     (scan e t l = Inr response \<and> (response = None \<or> response = Some []) \<longrightarrow>
        lambda_handler e event =
          ([Scan t l],
           Inr \<lparr>statusCode = 404,
                body = ''{'' @ quoted ''error'' @ '': '' @ quoted ''No incidents found'' @ ''}''\<rparr>))
     \<and> (scan e t l = Inl ex \<longrightarrow>
          (\<exists>r. snd (lambda_handler e event) = Inr r \<and> statusCode r = 500))"
proof (intro impI conjI)
  assume c: "Scan t l \<in> set (fst (lambda_handler e event))"
  obtain q where q: "lambda_handler_try e event = answer e q" "t = ''dev-incidents''"
    "determine_incident_limit (decimals e) (codepoints q) = Inr l"
    using scan_called [OF c] by (elim exE conjE)
  {
    assume a: "scan e t l = Inr response \<and> (response = None \<or> response = Some [])"
    then have s: "scan e ''dev-incidents'' l = Inr response"
      using q(2) by simp
    from a have r: "response = None \<or> response = Some []" by (rule conjunct2)
    note an = answer_empty [OF q(3) s r]
    show "lambda_handler e event =
          ([Scan t l],
           Inr \<lparr>statusCode = 404,
                body = ''{'' @ quoted ''error'' @ '': '' @ quoted ''No incidents found'' @ ''}''\<rparr>)"
      using handler_of_answer [OF q(1) an] q(2)
      by (simp only: dumps_error_plain [OF plain_none_found])
  }
  {
    assume "scan e t l = Inl ex"
    then have "scan e ''dev-incidents'' l = Inl ex"
      using q(2) by simp
    note an = answer_failure [OF q(3) this]
    show "\<exists>r. snd (lambda_handler e event) = Inr r \<and> statusCode r = 500"
      using handler_of_answer [OF q(1) an] by (simp del: json_dumps.simps)
  }
qed

theorem empty_fetch_is_404_witness:
  "lambda_handler (sample_env (Inr (Some [])) (Inr sample_reply)) sample_event
     = ([Scan ''dev-incidents'' 2],
        Inr \<lparr>statusCode = 404,
             body = ''{'' @ quoted ''error'' @ '': '' @ quoted ''No incidents found'' @ ''}''\<rparr>)
   \<and> lambda_handler (sample_env (Inr None) (Inr sample_reply)) sample_event
     = ([Scan ''dev-incidents'' 2],
        Inr \<lparr>statusCode = 404,
             body = ''{'' @ quoted ''error'' @ '': '' @ quoted ''No incidents found'' @ ''}''\<rparr>)
   \<and> (\<exists>r. snd (lambda_handler (sample_env (Inl (ClientError ''Requested resource not found''))
                   (Inr sample_reply)) sample_event) = Inr r
          \<and> statusCode r = 500)"
proof (intro conjI)
  let ?e1 = "sample_env (Inr (Some [])) (Inr sample_reply)"
  have s1: "scan ?e1 ''dev-incidents'' 2 = Inr (Some []) \<and> (Some [] = None \<or> Some [] = Some [])"
    by (simp add: sample_env_def)
  show "lambda_handler ?e1 sample_event
     = ([Scan ''dev-incidents'' 2],
        Inr \<lparr>statusCode = 404,
             body = ''{'' @ quoted ''error'' @ '': '' @ quoted ''No incidents found'' @ ''}''\<rparr>)"
    by (rule empty_fetch_is_404 [THEN mp, OF sample_scan_called, THEN conjunct1, THEN mp, OF s1])
  let ?e2 = "sample_env (Inr None) (Inr sample_reply)"
  have s2: "scan ?e2 ''dev-incidents'' 2 = Inr None \<and> (None = None \<or> None = Some [])"
    by (simp add: sample_env_def)
  show "lambda_handler ?e2 sample_event
     = ([Scan ''dev-incidents'' 2],
        Inr \<lparr>statusCode = 404,
             body = ''{'' @ quoted ''error'' @ '': '' @ quoted ''No incidents found'' @ ''}''\<rparr>)"
    by (rule empty_fetch_is_404 [THEN mp, OF sample_scan_called, THEN conjunct1, THEN mp, OF s2])
  let ?e3 = "sample_env (Inl (ClientError ''Requested resource not found'')) (Inr sample_reply)"
  have s3: "scan ?e3 ''dev-incidents'' 2 = Inl (ClientError ''Requested resource not found'')"
    by (simp add: sample_env_def)
  show "\<exists>r. snd (lambda_handler ?e3 sample_event) = Inr r \<and> statusCode r = 500"
    by (rule empty_fetch_is_404 [THEN mp, OF sample_scan_called, THEN conjunct2, THEN mp, OF s3])
qed

lemma handler_of_raise:
  assumes "snd (lambda_handler_try e event) = Inl ex"
  shows "lambda_handler e event =
           (fst (lambda_handler_try e event),
            Inr \<lparr>statusCode = 500,
                 body = ''{'' @ quoted ''error'' @ '': '' @ encode_string (str_exn ex) @ ''}''\<rparr>)"
proof -
  have "lambda_handler e event =
           (fst (lambda_handler_try e event),
            Inr \<lparr>statusCode = 500, body = json_dumps (JObj [(''error'', JStr (str_exn ex))])\<rparr>)"
    using assms by (simp add: lambda_handler_def split_beta del: json_dumps.simps)
  then show ?thesis by (simp only: dumps_error)
qed

lemma limit_error_is_500:
  assumes "event ''body'' = Some raw" and "json_loads e raw = Inr parsed"
    and "py_get parsed ''user_question'' (JStr []) = Inr (JStr q)" and "q \<noteq> []"
    and "determine_incident_limit (decimals e) (codepoints q) = Inl ex"
  shows "lambda_handler e event =
           ([], Inr \<lparr>statusCode = 500,
                     body = ''{'' @ quoted ''error'' @ '': '' @ encode_string (str_exn ex) @ ''}''\<rparr>)"
proof -
  note h = handler_answer [where event = event and e = e and raw = raw and parsed = parsed and q = q,
        OF assms(1,2,3,4)]
  have "lambda_handler e event =
           ([], Inr \<lparr>statusCode = 500, body = json_dumps (JObj [(''error'', JStr (str_exn ex))])\<rparr>)"
    using h answer_raises [OF assms(5)] by (simp del: json_dumps.simps)
  then show ?thesis by (simp only: dumps_error)
qed

lemma handler_returns: "\<exists>r. snd (lambda_handler e event) = Inr r"
  by (simp add: lambda_handler_def split_beta split: sum.splits del: json_dumps.simps)

text \<open>
  Claim C7. The handler returns a response for every environment and every event. When
  the \<^verbatim>\<open>try\<close> block raises, the response has status 500 and its body is the dict with
  the single key \<^verbatim>\<open>error\<close> and the message of the exception; an event without
  \<^verbatim>\<open>body\<close> and a body that \<^verbatim>\<open>json.loads\<close> rejects are two such cases.
\<close>

theorem lambda_handler_never_raises:
  "(\<exists>r. snd (lambda_handler e event) = Inr r)
   \<and> (snd (lambda_handler_try e event) = Inl ex \<longrightarrow>
        lambda_handler e event =
          (fst (lambda_handler_try e event),
           Inr \<lparr>statusCode = 500,
                body = ''{'' @ quoted ''error'' @ '': '' @ encode_string (str_exn ex) @ ''}''\<rparr>))
   \<and> (event ''body'' = None \<longrightarrow>
        snd (lambda_handler_try e event) = Inl (KeyError ([sq] @ ''body'' @ [sq])))
   \<and> (event ''body'' = Some raw \<and> json_loads e raw = Inl ex \<longrightarrow>
        snd (lambda_handler_try e event) = Inl ex)"
proof (intro conjI impI)
  show "\<exists>r. snd (lambda_handler e event) = Inr r"
    by (rule handler_returns)
next
  assume "snd (lambda_handler_try e event) = Inl ex"
  then show "lambda_handler e event =
          (fst (lambda_handler_try e event),
           Inr \<lparr>statusCode = 500,
                body = ''{'' @ quoted ''error'' @ '': '' @ encode_string (str_exn ex) @ ''}''\<rparr>)"
    by (rule handler_of_raise)
next
  assume "event ''body'' = None"
  then show "snd (lambda_handler_try e event) = Inl (KeyError ([sq] @ ''body'' @ [sq]))"
    by (simp add: lambda_handler_try_def)
next
  assume "event ''body'' = Some raw \<and> json_loads e raw = Inl ex"
  then show "snd (lambda_handler_try e event) = Inl ex"
    by (simp add: lambda_handler_try_def)
qed

theorem lambda_handler_never_raises_witness:
  "lambda_handler (sample_env (Inr (Some sample_records)) (Inr sample_reply)) Map.empty
     = ([], Inr \<lparr>statusCode = 500,
                 body = ''{'' @ quoted ''error'' @ '': '' @ quoted ([sq] @ ''body'' @ [sq]) @ ''}''\<rparr>)
   \<and> lambda_handler (sample_env (Inr (Some sample_records)) (Inr sample_reply))
         [''body'' \<mapsto> JStr ''last 3 incidents'']
     = ([], Inr \<lparr>statusCode = 500,
                 body = ''{'' @ quoted ''error'' @ '': ''
                        @ quoted ''Expecting value: line 1 column 1 (char 0)'' @ ''}''\<rparr>)"
proof (intro conjI)
  let ?e = "sample_env (Inr (Some sample_records)) (Inr sample_reply)"
  note t = lambda_handler_never_raises [where e = ?e and event = Map.empty]
  have r: "snd (lambda_handler_try ?e Map.empty) = Inl (KeyError ([sq] @ ''body'' @ [sq]))"
    by (rule t [THEN conjunct2, THEN conjunct2, THEN conjunct1, THEN mp]) simp
  have c: "fst (lambda_handler_try ?e Map.empty) = []"
    by (simp add: lambda_handler_try_def)
  have p: "list_all plain_char ([sq] @ ''body'' @ [sq])"
    by (simp add: plain_char_def sq_def dq_def backslash_def)
  show "lambda_handler ?e Map.empty
     = ([], Inr \<lparr>statusCode = 500,
                 body = ''{'' @ quoted ''error'' @ '': '' @ quoted ([sq] @ ''body'' @ [sq]) @ ''}''\<rparr>)"
    using lambda_handler_never_raises
      [where e = ?e and event = Map.empty and ex = "KeyError ([sq] @ ''body'' @ [sq])",
       THEN conjunct2, THEN conjunct1, THEN mp, OF r]
    by (simp only: c str_exn.simps encode_plain [OF p])
next
  let ?e = "sample_env (Inr (Some sample_records)) (Inr sample_reply)"
  let ?ev = "[''body'' \<mapsto> JStr ''last 3 incidents'']"
  let ?ex = "ValueError ''Expecting value: line 1 column 1 (char 0)''"
  have l: "?ev ''body'' = Some (JStr ''last 3 incidents'') \<and> json_loads ?e (JStr ''last 3 incidents'') = Inl ?ex"
    by (simp add: json_loads_def sample_env_def sample_loads_def sample_question_body_def
        sample_empty_question_body_def sample_reply_def quoted_def)
  have r: "snd (lambda_handler_try ?e ?ev) = Inl ?ex"
    by (rule lambda_handler_never_raises
          [where e = ?e and event = ?ev and ex = ?ex and raw = "JStr ''last 3 incidents''",
           THEN conjunct2, THEN conjunct2, THEN conjunct2, THEN mp, OF l])
  have c: "fst (lambda_handler_try ?e ?ev) = []"
    using l by (simp add: lambda_handler_try_def)
  have p: "list_all plain_char ''Expecting value: line 1 column 1 (char 0)''"
    by (simp add: plain_char_def dq_def backslash_def)
  show "lambda_handler ?e ?ev
     = ([], Inr \<lparr>statusCode = 500,
                 body = ''{'' @ quoted ''error'' @ '': ''
                        @ quoted ''Expecting value: line 1 column 1 (char 0)'' @ ''}''\<rparr>)"
    using lambda_handler_never_raises
      [where e = ?e and event = ?ev and ex = ?ex,
       THEN conjunct2, THEN conjunct1, THEN mp, OF r]
    by (simp only: c str_exn.simps encode_plain [OF p])
qed

text \<open>
  Claim C9. For every environment and every event the status code of the response is
  200, 400, 404 or 500.
\<close>

theorem status_code_is_one_of_four:
  "\<exists>r. snd (lambda_handler e event) = Inr r \<and> statusCode r \<in> {200, 400, 404, 500}"
  by (rule handler_status)

text \<open>
  Claim C2. When the question is text that is not empty, the handler has called the
  store and the call returned at least one record, the response has status 200 and its
  body is the dict with the single key \<^verbatim>\<open>response\<close> and the result of \<open>invoke_bedrock\<close>
  on the composed prompt: the text extracted from the reply of the model, or the dict
  \<^verbatim>\<open>{"error": ...}\<close> when the call of the model or the reading of its reply raised.
\<close>

theorem records_fetched_is_200:
  assumes "event ''body'' = Some raw" and "json_loads e raw = Inr parsed"
    and "py_get parsed ''user_question'' (JStr []) = Inr (JStr q)" and "q \<noteq> []"
    and "Scan t l \<in> set (fst (lambda_handler e event))"
    and "scan e t l = Inr (Some records)"
    and "records \<noteq> []"
  shows "\<exists>r. snd (invoke_bedrock e (generate_user_query_prompt records q)) = r
     \<and> snd (lambda_handler e event) =
         Inr \<lparr>statusCode = 200,
              body = ''{'' @ quoted ''response'' @ '': '' @ json_dumps r @ ''}''\<rparr>
     \<and> (\<forall>text. invoke_bedrock_try e (generate_user_query_prompt records q) = Inr text
           \<longrightarrow> r = text)
     \<and> (\<forall>ex. invoke_bedrock_try e (generate_user_query_prompt records q) = Inl ex
           \<longrightarrow> r = JObj [(''error'', JStr (''Error invoking Bedrock: '' @ str_exn ex))])"
proof -
  let ?prompt = "generate_user_query_prompt records q"
  let ?r = "snd (invoke_bedrock e ?prompt)"
  note h = handler_answer [where event = event and e = e and raw = raw and parsed = parsed and q = q,
        OF assms(1,2,3,4)]
  have "Scan t l \<in> set (fst (answer e q))"
    using assms(5) by (simp add: h)
  then have tl: "t = ''dev-incidents'' \<and> determine_incident_limit (decimals e) (codepoints q) = Inr l"
    using answer_calls [of e q] by auto
  then have d: "determine_incident_limit (decimals e) (codepoints q) = Inr l"
    by (rule conjunct2)
  have s: "scan e ''dev-incidents'' l = Inr (Some records)"
    using assms(6) tl by simp
  note a = answer_records [OF d s assms(7)]
  have "snd (lambda_handler e event) =
          Inr \<lparr>statusCode = 200, body = json_dumps (JObj [(''response'', ?r)])\<rparr>"
    using h a by (simp del: json_dumps.simps)
  then have h: "snd (lambda_handler e event) =
         Inr \<lparr>statusCode = 200,
              body = ''{'' @ quoted ''response'' @ '': '' @ json_dumps ?r @ ''}''\<rparr>"
    by (simp only: dumps_response)
  have s: "\<forall>text. invoke_bedrock_try e ?prompt = Inr text \<longrightarrow> ?r = text"
    by (simp add: invoke_bedrock_def)
  have f: "\<forall>ex. invoke_bedrock_try e ?prompt = Inl ex
           \<longrightarrow> ?r = JObj [(''error'', JStr (''Error invoking Bedrock: '' @ str_exn ex))]"
    by (simp add: invoke_bedrock_def)
  from h s f show ?thesis
    by (intro exI [of _ ?r] conjI refl)
qed

lemma sample_question_fields:
  "sample_event ''body'' = Some (JStr sample_question_body)"
  "py_get (JObj [(''user_question'', JStr ''show the last 2 incidents'')]) ''user_question'' (JStr [])
     = Inr (JStr ''show the last 2 incidents'')"
  "''show the last 2 incidents'' \<noteq> []"
  "sample_records \<noteq> []"
  by (simp_all add: sample_event_def py_get_def sample_records_def)

lemma sample_reply_parsed:
  "invoke_bedrock_try (sample_env sr (Inr sample_reply)) prompt = Inr (JStr ''Two incidents are open.'')"
  by (simp add: invoke_bedrock_try_def sample_env_def sample_loads_def sample_reply_def
      sample_question_body_def sample_empty_question_body_def quoted_def py_get_def py_index0_def
      del: json_dumps.simps)

lemma sample_model_down:
  "invoke_bedrock_try (sample_env sr (Inl ex)) prompt = Inl ex"
  by (simp add: invoke_bedrock_try_def sample_env_def del: json_dumps.simps)

theorem records_fetched_is_200_witness:
  "snd (lambda_handler (sample_env (Inr (Some sample_records)) (Inr sample_reply)) sample_event)
     = Inr \<lparr>statusCode = 200,
            body = ''{'' @ quoted ''response'' @ '': '' @ quoted ''Two incidents are open.'' @ ''}''\<rparr>
   \<and> snd (lambda_handler (sample_env (Inr (Some sample_records)) (Inl (ClientError ''Read timeout'')))
            sample_event)
     = Inr \<lparr>statusCode = 200,
            body = ''{'' @ quoted ''response'' @ '': {'' @ quoted ''error'' @ '': ''
                   @ quoted ''Error invoking Bedrock: Read timeout'' @ ''}}''\<rparr>"
proof (intro conjI)
  let ?q = "''show the last 2 incidents''"
  let ?e = "sample_env (Inr (Some sample_records)) (Inr sample_reply)"
  have c: "Scan ''dev-incidents'' 2 \<in> set (fst (lambda_handler ?e sample_event))"
    by (rule sample_scan_called)
  have s: "scan ?e ''dev-incidents'' 2 = Inr (Some sample_records)"
    by (simp add: sample_env_def)
  obtain r where r: "snd (lambda_handler ?e sample_event) =
         Inr \<lparr>statusCode = 200,
              body = ''{'' @ quoted ''response'' @ '': '' @ json_dumps r @ ''}''\<rparr>"
    and t: "\<forall>text. invoke_bedrock_try ?e (generate_user_query_prompt sample_records ?q) = Inr text
           \<longrightarrow> r = text"
    using records_fetched_is_200
        [where event = sample_event and e = ?e and raw = "JStr sample_question_body"
           and parsed = "JObj [(''user_question'', JStr ''show the last 2 incidents'')]"
           and q = ?q and records = sample_records and t = "''dev-incidents''" and l = 2,
         OF sample_question_fields(1) sample_parsed sample_question_fields(2,3) c s
           sample_question_fields(4)]
    by (elim exE conjE)
  have "r = JStr ''Two incidents are open.''"
    using t sample_reply_parsed by simp
  moreover have "json_dumps (JStr ''Two incidents are open.'') = quoted ''Two incidents are open.''"
    by (simp add: encode_plain plain_char_def dq_def backslash_def)
  ultimately show "snd (lambda_handler ?e sample_event)
     = Inr \<lparr>statusCode = 200,
            body = ''{'' @ quoted ''response'' @ '': '' @ quoted ''Two incidents are open.'' @ ''}''\<rparr>"
    using r by (simp only:)
next
  let ?q = "''show the last 2 incidents''"
  let ?e = "sample_env (Inr (Some sample_records)) (Inl (ClientError ''Read timeout''))"
  have c: "Scan ''dev-incidents'' 2 \<in> set (fst (lambda_handler ?e sample_event))"
    by (rule sample_scan_called)
  have s: "scan ?e ''dev-incidents'' 2 = Inr (Some sample_records)"
    by (simp add: sample_env_def)
  obtain r where r: "snd (lambda_handler ?e sample_event) =
         Inr \<lparr>statusCode = 200,
              body = ''{'' @ quoted ''response'' @ '': '' @ json_dumps r @ ''}''\<rparr>"
    and t: "\<forall>ex. invoke_bedrock_try ?e (generate_user_query_prompt sample_records ?q) = Inl ex
           \<longrightarrow> r = JObj [(''error'', JStr (''Error invoking Bedrock: '' @ str_exn ex))]"
    using records_fetched_is_200
        [where event = sample_event and e = ?e and raw = "JStr sample_question_body"
           and parsed = "JObj [(''user_question'', JStr ''show the last 2 incidents'')]"
           and q = ?q and records = sample_records and t = "''dev-incidents''" and l = 2,
         OF sample_question_fields(1) sample_parsed sample_question_fields(2,3) c s
           sample_question_fields(4)]
    by (elim exE conjE)
  have "r = JObj [(''error'', JStr (''Error invoking Bedrock: '' @ str_exn (ClientError ''Read timeout'')))]"
    using t sample_model_down by simp
  then have "r = JObj [(''error'', JStr ''Error invoking Bedrock: Read timeout'')]"
    by simp
  moreover have "json_dumps (JObj [(''error'', JStr ''Error invoking Bedrock: Read timeout'')])
      = ''{'' @ quoted ''error'' @ '': '' @ quoted ''Error invoking Bedrock: Read timeout'' @ ''}''"
    by (rule dumps_error_plain) (simp add: plain_char_def dq_def backslash_def)
  ultimately show "snd (lambda_handler ?e sample_event)
     = Inr \<lparr>statusCode = 200,
            body = ''{'' @ quoted ''response'' @ '': {'' @ quoted ''error'' @ '': ''
                   @ quoted ''Error invoking Bedrock: Read timeout'' @ ''}}''\<rparr>"
    using r by simp
qed

subsection \<open>The text written by the Prompt Formatter\<close>

lemma format_loop_append: "format_loop incidents acc = acc @ map format_incident incidents"
  by (induction incidents arbitrary: acc) simp_all

lemma get_S_shown: "get_S incident k = shown_value incident k"
  by (simp add: get_S_def shown_value_def split: option.splits attribute_value.splits)

lemma format_incident_labels:
  "format_incident incident
   = JObj (map (\<lambda>(label, k). (label, JStr (shown_value incident k))) field_labels)"
  by (simp add: format_incident_def field_labels_def get_S_shown)

lemma join_prefixed:
  "ys \<noteq> [] \<Longrightarrow> pre @ join (sep @ pre) ys = join sep (map (\<lambda>y. pre @ y) ys)"
  by (induction "sep @ pre" ys rule: join.induct) simp_all

lemma newline_indent_1: "newline_indent 2 (Suc 0) = [nl] @ ''  ''"
  by (simp add: newline_indent_def eval_nat_numeral)

lemma newline_indent_2: "newline_indent 2 (Suc (Suc 0)) = [nl] @ ''    ''"
  by (simp add: newline_indent_def eval_nat_numeral)

lemma newline_indent_0: "newline_indent 2 0 = [nl]"
  by (simp add: newline_indent_def)

lemma encode_label:
  "(label, k) \<in> set field_labels \<Longrightarrow> encode_string label = [dq] @ label @ [dq]"
proof -
  assume "(label, k) \<in> set field_labels"
  then have "list_all plain_char label"
    by (auto simp add: field_labels_def plain_char_def dq_def backslash_def)
  then show ?thesis
    by (simp only: encode_plain quoted_def)
qed

lemma dumps_obj_strings:
  "kvs \<noteq> [] \<Longrightarrow>
   json_dumps_indent w level (JObj (map (\<lambda>(label, v). (label, JStr v)) kvs))
   = ''{'' @ newline_indent w (Suc level)
     @ join ('','' @ newline_indent w (Suc level))
         (map (\<lambda>(label, v). encode_string label @ '': '' @ encode_string v) kvs)
     @ newline_indent w level @ ''}''"
  by (simp add: o_def split_def)

lemma dumps_record:
  "json_dumps_indent 2 (Suc 0) (format_incident incident) = record_text incident"
proof -
  define vals where "vals = map (\<lambda>(label, k). (label, shown_value incident k)) field_labels"
  let ?item = "\<lambda>(label, v). encode_string label @ '': '' @ encode_string v"
  let ?line = "\<lambda>(label, k). [nl] @ ''    '' @ [dq] @ label @ [dq] @ '': ''
                               @ encode_string (shown_value incident k)"
  have ne: "vals \<noteq> []"
    by (simp add: vals_def field_labels_def)
  have f: "format_incident incident = JObj (map (\<lambda>(label, v). (label, JStr v)) vals)"
    by (simp add: format_incident_labels vals_def o_def split_beta)
  have d: "json_dumps_indent 2 (Suc 0) (format_incident incident)
        = ''{'' @ (([nl] @ ''    '') @ join ('','' @ ([nl] @ ''    '')) (map ?item vals))
          @ ([nl] @ ''  '') @ ''}''"
    by (simp only: f dumps_obj_strings [OF ne] newline_indent_1 newline_indent_2 append_assoc)
  have j: "([nl] @ ''    '') @ join ('','' @ ([nl] @ ''    '')) (map ?item vals)
        = join '','' (map (\<lambda>y. ([nl] @ ''    '') @ y) (map ?item vals))"
    using ne by (intro join_prefixed) simp
  have "\<And>label k. (label, k) \<in> set field_labels \<Longrightarrow>
          ([nl] @ ''    '') @ ?item (label, shown_value incident k) = ?line (label, k)"
    by (simp add: encode_label)
  then have m: "map (\<lambda>y. ([nl] @ ''    '') @ y) (map ?item vals) = map ?line field_labels"
    unfolding vals_def map_map by (intro map_cong refl) (auto simp del: append.simps)
  show ?thesis
    unfolding d j m record_text_def by simp
qed

lemma format_loop_map: "format_loop incidents [] = map format_incident incidents"
  by (simp add: format_loop_append)

lemma format_text: "format_incidents_for_prompt incidents = block_text incidents"
proof (cases "incidents = []")
  case True
  then show ?thesis
    by (simp add: format_incidents_for_prompt_def block_text_def)
next
  case False
  then have ne: "map record_text incidents \<noteq> []" by simp
  have "format_incidents_for_prompt incidents
        = ''['' @ (([nl] @ ''  '') @ join ('','' @ ([nl] @ ''  '')) (map record_text incidents))
          @ [nl] @ '']''"
    using False
    by (simp add: format_incidents_for_prompt_def format_loop_map o_def dumps_record
        newline_indent_1 newline_indent_0 del: append.simps)
  also have "([nl] @ ''  '') @ join ('','' @ ([nl] @ ''  '')) (map record_text incidents)
        = join '','' (map (\<lambda>y. ([nl] @ ''  '') @ y) (map record_text incidents))"
    using ne by (rule join_prefixed)
  finally show ?thesis
    using False by (simp add: block_text_def o_def)
qed

lemma record_text_cong:
  assumes "\<forall>k\<in>set (map snd field_labels). a k = b k"
  shows "record_text a = record_text b"
proof -
  have "\<And>label k. (label, k) \<in> set field_labels \<Longrightarrow> shown_value a k = shown_value b k"
  proof -
    fix label k assume "(label, k) \<in> set field_labels"
    then have "k \<in> set (map snd field_labels)" by force
    with assms have "a k = b k" by blast
    then show "shown_value a k = shown_value b k" by (simp add: shown_value_def)
  qed
  then have "map (\<lambda>(label, k). [nl] @ ''    '' @ [dq] @ label @ [dq] @ '': ''
                                      @ encode_string (shown_value a k)) field_labels
           = map (\<lambda>(label, k). [nl] @ ''    '' @ [dq] @ label @ [dq] @ '': ''
                                      @ encode_string (shown_value b k)) field_labels"
    by (intro map_cong refl) auto
  then show ?thesis
    by (simp only: record_text_def)
qed

lemma block_text_cong:
  assumes "list_all2 (\<lambda>a b. \<forall>k\<in>set (map snd field_labels). a k = b k) incidents others"
  shows "block_text incidents = block_text others"
proof -
  have "map record_text incidents = map record_text others"
    using assms by (induction rule: list_all2_induct) (simp_all add: record_text_cong)
  moreover have "incidents = [] \<longleftrightarrow> others = []"
    using assms by (auto dest: list_all2_lengthD)
  moreover have "\<And>xs. map (\<lambda>incident. [nl] @ ''  '' @ record_text incident) xs
                      = map (\<lambda>t. [nl] @ ''  '' @ t) (map record_text xs)"
    by simp
  ultimately show ?thesis
    by (simp only: block_text_def)
qed

text \<open>
  Claim C3. The output of \<open>format_incidents_for_prompt\<close> is the text of a JSON list with
  one object per record, in the order of the records; every object has exactly the
  eight labels Incident ID, Title, Status, Priority, Urgency, Category, Affected Service
  and Root Cause, in this order, each with the text of its attribute, or with
  \<^verbatim>\<open>N/A\<close> when the record has no such attribute. Records that agree on the eight
  attributes give the same output, whatever else they hold.
\<close>

theorem format_incidents_for_prompt_text:
  "format_loop incidents []
     = map (\<lambda>incident. JObj (map (\<lambda>(label, k). (label, JStr (shown_value incident k))) field_labels))
         incidents
   \<and> format_incidents_for_prompt incidents = block_text incidents
   \<and> (incident k = None \<longrightarrow> shown_value incident k = ''N/A'')
   \<and> (list_all2 (\<lambda>a b. \<forall>k\<in>set (map snd field_labels). a k = b k) incidents others
        \<longrightarrow> format_incidents_for_prompt incidents = format_incidents_for_prompt others)"
proof (intro conjI impI)
  show "format_loop incidents []
     = map (\<lambda>incident. JObj (map (\<lambda>(label, k). (label, JStr (shown_value incident k))) field_labels))
         incidents"
    by (simp add: format_loop_append format_incident_labels)
  show "format_incidents_for_prompt incidents = block_text incidents"
    by (rule format_text)
  show "shown_value incident k = ''N/A''" if "incident k = None"
    using that by (simp add: shown_value_def)
  show "format_incidents_for_prompt incidents = format_incidents_for_prompt others"
    if "list_all2 (\<lambda>a b. \<forall>k\<in>set (map snd field_labels). a k = b k) incidents others"
    using block_text_cong [OF that] by (simp only: format_text)
qed

theorem format_incidents_for_prompt_text_witness:
  "format_incidents_for_prompt sample_records
     = join [nl]
         [''['',
          ''  {'',
          ''    '' @ quoted ''Incident ID'' @ '': '' @ quoted ''INC-1'' @ '','',
          ''    '' @ quoted ''Title'' @ '': '' @ quoted ''Disk full'' @ '','',
          ''    '' @ quoted ''Status'' @ '': '' @ quoted ''N/A'' @ '','',
          ''    '' @ quoted ''Priority'' @ '': '' @ quoted ''N/A'' @ '','',
          ''    '' @ quoted ''Urgency'' @ '': '' @ quoted ''N/A'' @ '','',
          ''    '' @ quoted ''Category'' @ '': '' @ quoted ''N/A'' @ '','',
          ''    '' @ quoted ''Affected Service'' @ '': '' @ quoted ''N/A'' @ '','',
          ''    '' @ quoted ''Root Cause'' @ '': '' @ quoted ''N/A'',
          ''  },'',
          ''  {'',
          ''    '' @ quoted ''Incident ID'' @ '': '' @ quoted ''N/A'' @ '','',
          ''    '' @ quoted ''Title'' @ '': '' @ quoted ''N/A'' @ '','',
          ''    '' @ quoted ''Status'' @ '': '' @ quoted ''N/A'' @ '','',
          ''    '' @ quoted ''Priority'' @ '': '' @ quoted ''N/A'' @ '','',
          ''    '' @ quoted ''Urgency'' @ '': '' @ quoted ''N/A'' @ '','',
          ''    '' @ quoted ''Category'' @ '': '' @ quoted ''N/A'' @ '','',
          ''    '' @ quoted ''Affected Service'' @ '': '' @ quoted ''N/A'' @ '','',
          ''    '' @ quoted ''Root Cause'' @ '': '' @ quoted ''N/A'',
          ''  }'',
          '']'']
   \<and> format_incidents_for_prompt [[''id'' \<mapsto> Attr_S ''INC-1'', ''owner'' \<mapsto> Attr_S ''ops'']]
     = format_incidents_for_prompt [[''id'' \<mapsto> Attr_S ''INC-1'']]"
proof (intro conjI)
  have "format_incidents_for_prompt sample_records = block_text sample_records"
    by (rule format_incidents_for_prompt_text [THEN conjunct2, THEN conjunct1])
  then show "format_incidents_for_prompt sample_records
     = join [nl]
         [''['',
          ''  {'',
          ''    '' @ quoted ''Incident ID'' @ '': '' @ quoted ''INC-1'' @ '','',
          ''    '' @ quoted ''Title'' @ '': '' @ quoted ''Disk full'' @ '','',
          ''    '' @ quoted ''Status'' @ '': '' @ quoted ''N/A'' @ '','',
          ''    '' @ quoted ''Priority'' @ '': '' @ quoted ''N/A'' @ '','',
          ''    '' @ quoted ''Urgency'' @ '': '' @ quoted ''N/A'' @ '','',
          ''    '' @ quoted ''Category'' @ '': '' @ quoted ''N/A'' @ '','',
          ''    '' @ quoted ''Affected Service'' @ '': '' @ quoted ''N/A'' @ '','',
          ''    '' @ quoted ''Root Cause'' @ '': '' @ quoted ''N/A'',
          ''  },'',
          ''  {'',
          ''    '' @ quoted ''Incident ID'' @ '': '' @ quoted ''N/A'' @ '','',
          ''    '' @ quoted ''Title'' @ '': '' @ quoted ''N/A'' @ '','',
          ''    '' @ quoted ''Status'' @ '': '' @ quoted ''N/A'' @ '','',
          ''    '' @ quoted ''Priority'' @ '': '' @ quoted ''N/A'' @ '','',
          ''    '' @ quoted ''Urgency'' @ '': '' @ quoted ''N/A'' @ '','',
          ''    '' @ quoted ''Category'' @ '': '' @ quoted ''N/A'' @ '','',
          ''    '' @ quoted ''Affected Service'' @ '': '' @ quoted ''N/A'' @ '','',
          ''    '' @ quoted ''Root Cause'' @ '': '' @ quoted ''N/A'',
          ''  }'',
          '']'']"
    by (simp add: block_text_def record_text_def field_labels_def shown_value_def sample_records_def
        encode_string_def escape_char_def quoted_def dq_def backslash_def)
next
  have "list_all2 (\<lambda>a b. \<forall>k\<in>set (map snd field_labels). a k = b k)
          [[''id'' \<mapsto> Attr_S ''INC-1'', ''owner'' \<mapsto> Attr_S ''ops'']] [[''id'' \<mapsto> Attr_S ''INC-1'']]"
    by (simp add: field_labels_def)
  then show "format_incidents_for_prompt [[''id'' \<mapsto> Attr_S ''INC-1'', ''owner'' \<mapsto> Attr_S ''ops'']]
     = format_incidents_for_prompt [[''id'' \<mapsto> Attr_S ''INC-1'']]"
    by (rule format_incidents_for_prompt_text
          [THEN conjunct2, THEN conjunct2, THEN conjunct2, THEN mp])
qed

lemma shown_value_other_tag:
  assumes "incident k = Some a" and "\<forall>s. a \<noteq> Attr_S s"
  shows "shown_value (incident(k := None)) k' = shown_value incident k'"
  using assms by (cases a) (simp_all add: shown_value_def)

lemma record_text_other_tag:
  assumes "incident k = Some a" and "\<forall>s. a \<noteq> Attr_S s"
  shows "record_text (incident(k := None)) = record_text incident"
  by (simp only: record_text_def
      shown_value_other_tag [where incident = incident and k = k and a = a, OF assms])

text \<open>
  Claim C10. An attribute that is present under a type descriptor other than \<^verbatim>\<open>S\<close> is
  shown as \<^verbatim>\<open>N/A\<close>: the output of the formatter is the same as for the record without
  the attribute.
\<close>

theorem other_type_tag_is_absent:
  "incident k = Some a \<and> (\<forall>s. a \<noteq> Attr_S s) \<longrightarrow>
     get_S incident k = ''N/A''
     \<and> format_incidents_for_prompt (before @ [incident] @ after)
       = format_incidents_for_prompt (before @ [incident(k := None)] @ after)"
proof (intro impI conjI)
  assume h: "incident k = Some a \<and> (\<forall>s. a \<noteq> Attr_S s)"
  then have 1: "incident k = Some a" and 2: "\<forall>s. a \<noteq> Attr_S s" by simp_all
  show "get_S incident k = ''N/A''"
    using 1 2 by (cases a) (simp_all add: get_S_def)
  have "block_text (before @ [incident] @ after) = block_text (before @ [incident(k := None)] @ after)"
    by (simp add: block_text_def
        record_text_other_tag [where incident = incident and k = k and a = a, OF 1 2])
  then show "format_incidents_for_prompt (before @ [incident] @ after)
       = format_incidents_for_prompt (before @ [incident(k := None)] @ after)"
    by (simp only: format_text)
qed

theorem other_type_tag_is_absent_witness:
  "get_S [''id'' \<mapsto> Attr_S ''INC-1'', ''priority'' \<mapsto> Attr_N ''1''] ''priority'' = ''N/A''
   \<and> format_incidents_for_prompt [[''id'' \<mapsto> Attr_S ''INC-1'', ''priority'' \<mapsto> Attr_N ''1'']]
     = format_incidents_for_prompt [[''id'' \<mapsto> Attr_S ''INC-1'']]"
proof -
  let ?r = "[''id'' \<mapsto> Attr_S ''INC-1'', ''priority'' \<mapsto> Attr_N ''1'']"
  have h: "?r ''priority'' = Some (Attr_N ''1'') \<and> (\<forall>s. Attr_N ''1'' \<noteq> Attr_S s)"
    by simp
  have u: "?r(''priority'' := None) = [''id'' \<mapsto> Attr_S ''INC-1'']"
    by (rule ext) simp
  from other_type_tag_is_absent
    [where incident = ?r and k = "''priority''" and a = "Attr_N ''1''" and before = "[]" and after = "[]",
     THEN mp, OF h]
  show ?thesis
    by (simp only: u append_Nil append_Nil2)
qed

subsection \<open>Repeated calls of the Prompt Formatter\<close>

lemma format_loop_store_result:
  "objects s acc = Some (Dict_list xs) \<Longrightarrow>
   format_loop_store records acc s
   = Some (s\<lparr>objects := (objects s)(acc \<mapsto> Dict_list (xs @ map format_incident records))\<rparr>)"
proof (induction records arbitrary: s xs)
  case Nil
  then have "(objects s)(acc \<mapsto> Dict_list xs) = objects s"
    by (simp add: fun_upd_idem)
  then show ?case by simp
next
  case (Cons r records)
  let ?s = "s\<lparr>objects := (objects s)(acc \<mapsto> Dict_list (xs @ [format_incident r]))\<rparr>"
  let ?all = "Dict_list ((xs @ [format_incident r]) @ map format_incident records)"
  have a: "list_append acc (format_incident r) s = Some ?s"
    using Cons.prems by (simp add: list_append_def)
  have "objects ?s acc = Some (Dict_list (xs @ [format_incident r]))"
    by simp
  then have i: "format_loop_store records acc ?s = Some (?s\<lparr>objects := (objects ?s)(acc \<mapsto> ?all)\<rparr>)"
    by (rule Cons.IH)
  have e: "?s\<lparr>objects := (objects ?s)(acc \<mapsto> ?all)\<rparr> = s\<lparr>objects := (objects s)(acc \<mapsto> ?all)\<rparr>"
    by simp
  have "format_loop_store (r # records) acc s = format_loop_store records acc ?s"
    by (simp only: format_loop_store.simps a option.case)
  also have "\<dots> = Some (s\<lparr>objects := (objects s)(acc \<mapsto> ?all)\<rparr>)"
    by (simp only: i e)
  finally show ?case
    by (simp only: list.map append_assoc append.simps)
qed

lemma store_call:
  assumes "objects s a = Some (Record_list records)" and "a < next_addr s"
  shows "format_incidents_for_prompt_store a s
         = Some (format_incidents_for_prompt records,
                 s\<lparr>objects := (objects s)(next_addr s \<mapsto> Dict_list (map format_incident records)),
                   next_addr := Suc (next_addr s)\<rparr>)"
proof -
  let ?s1 = "s\<lparr>objects := (objects s)(next_addr s \<mapsto> Dict_list []), next_addr := Suc (next_addr s)\<rparr>"
  have "objects ?s1 (next_addr s) = Some (Dict_list [])"
    by simp
  from format_loop_store_result [OF this, of records]
  have l: "format_loop_store records (next_addr s) ?s1
           = Some (s\<lparr>objects := (objects s)(next_addr s \<mapsto> Dict_list (map format_incident records)),
                     next_addr := Suc (next_addr s)\<rparr>)"
    by simp
  show ?thesis
    using assms(1) l
    by (simp add: format_incidents_for_prompt_store_def new_list_def format_incidents_for_prompt_def
        format_loop_map del: json_dumps_indent.simps)
qed

text \<open>
  Claim C8. Called on the address of a list of records that the store holds, the
  formatter returns the text that \<open>format_incidents_for_prompt\<close> gives for the records;
  a second call on the store left by the first returns the same text; and each call
  leaves every object that was in the store before it as it was: the only object written
  is the list that the call itself creates.
\<close>

theorem format_incidents_for_prompt_repeatable:
  assumes "objects s a = Some (Record_list records)" and "a < next_addr s"
  shows "\<exists>s1 s2.
           format_incidents_for_prompt_store a s = Some (format_incidents_for_prompt records, s1)
         \<and> format_incidents_for_prompt_store a s1 = Some (format_incidents_for_prompt records, s2)
         \<and> (\<forall>b<next_addr s. objects s1 b = objects s b)
         \<and> (\<forall>b<next_addr s1. objects s2 b = objects s1 b)"
proof -
  let ?s1 = "s\<lparr>objects := (objects s)(next_addr s \<mapsto> Dict_list (map format_incident records)),
               next_addr := Suc (next_addr s)\<rparr>"
  let ?s2 = "?s1\<lparr>objects := (objects ?s1)(next_addr ?s1 \<mapsto> Dict_list (map format_incident records)),
               next_addr := Suc (next_addr ?s1)\<rparr>"
  have c1: "format_incidents_for_prompt_store a s = Some (format_incidents_for_prompt records, ?s1)"
    using assms by (rule store_call)
  have o: "objects ?s1 a = Some (Record_list records)" and n: "a < next_addr ?s1"
    using assms by simp_all
  have c2: "format_incidents_for_prompt_store a ?s1 = Some (format_incidents_for_prompt records, ?s2)"
    using o n by (rule store_call)
  have u1: "\<forall>b<next_addr s. objects ?s1 b = objects s b"
    by simp
  have u2: "\<forall>b<next_addr ?s1. objects ?s2 b = objects ?s1 b"
    by simp
  from c1 c2 u1 u2 show ?thesis
    by (intro exI [of _ ?s1] exI [of _ ?s2] conjI)
qed

theorem format_incidents_for_prompt_repeatable_witness:
  "(case format_incidents_for_prompt_store 0 \<lparr>objects = [0 \<mapsto> Record_list sample_records], next_addr = 1\<rparr> of
      None \<Rightarrow> False
    | Some (text1, s1) \<Rightarrow>
        text1 = format_incidents_for_prompt sample_records
        \<and> objects s1 0 = Some (Record_list sample_records)
        \<and> map_option fst (format_incidents_for_prompt_store 0 s1) = Some text1)"
proof -
  let ?s = "\<lparr>objects = [0 \<mapsto> Record_list sample_records], next_addr = 1\<rparr>"
  have h1: "objects ?s 0 = Some (Record_list sample_records)" and h2: "0 < next_addr ?s"
    by simp_all
  from format_incidents_for_prompt_repeatable [OF h1 h2]
  obtain s1 s2 where
    c1: "format_incidents_for_prompt_store 0 ?s = Some (format_incidents_for_prompt sample_records, s1)"
    and c2: "format_incidents_for_prompt_store 0 s1 = Some (format_incidents_for_prompt sample_records, s2)"
    and u: "\<forall>b<next_addr ?s. objects s1 b = objects ?s b"
    by (elim exE conjE)
  from u have "objects s1 0 = Some (Record_list sample_records)"
    by simp
  with c1 c2 show ?thesis
    by simp
qed

end
